theory Spec2Isabelle
  imports Main "HOL-Library.Word"
begin

section \<open>NetCalc option handler (option\_handler.c)\<close>

text \<open>
  A shallow embedding of \<^verbatim>\<open>src/C/option_handler/src/option_handler.c\<close>.
  The C code works on three pieces of state: the caller's \<^verbatim>\<open>options_t\<close> record,
  the argument vector (which the C library's \<^verbatim>\<open>getopt\<close> may reorder) and the
  process-wide variables of \<^verbatim>\<open>getopt\<close>. All of them are passed explicitly here.
  What the program writes is collected, in program order, as a list of events.
\<close>

subsection \<open>Data\<close>

text \<open>\<^verbatim>\<open>options_t\<close> of option\_handler.h. A \<^verbatim>\<open>char *\<close> is a string option,
  \<open>None\<close> being the null pointer; \<^verbatim>\<open>int32_t\<close> is a 32-bit word read by \<open>sint\<close>.\<close>

record options =
  n_flag :: bool
  n_value :: "32 word"
  p_flag :: bool
  p_value :: "string option"

text \<open>Output: \<^verbatim>\<open>printf\<close> writes to the standard output, \<^verbatim>\<open>fprintf(stderr, ...)\<close>
  to the diagnostic stream.

  Modelled from the spec: \<^verbatim>\<open>print_error\<close> (declared in utilities.h, which is missing).
  The spec says that every failure is surfaced by a message on the diagnostic stream; a
  call of \<^verbatim>\<open>print_error\<close> is recorded with the message it is given and nothing is
  said about how the message is laid out.\<close>

datatype event = Stdout string | Stderr string | PrintError string

text \<open>Modelled from the spec: the macros \<^verbatim>\<open>E_SUCCESS\<close> and \<^verbatim>\<open>E_FAILURE\<close> (utilities.h
  is missing). The spec speaks of a success and a non-success result only; the code
  compares the codes with each other and nothing else, so all that matters is that the two
  differ.\<close>

definition E_SUCCESS :: int where
  "E_SUCCESS = 0"

definition E_FAILURE :: int where
  "E_FAILURE = - 1"

definition MIN_NUM_THREADS :: int where
  "MIN_NUM_THREADS = 2"

definition MAX_PORT_VALUE :: int where
  "MAX_PORT_VALUE = 65535"

definition MIN_PORT_VALUE :: int where
  "MIN_PORT_VALUE = 1025"

definition MAX_PORT_SIZE :: nat where
  "MAX_PORT_SIZE = 6"

definition nl :: string where
  "nl = [CHR 0x0A]"

definition quote :: string where
  "quote = [CHR 0x27]"

subsection \<open>The numeric parser\<close>

text \<open>\<^verbatim>\<open>str_to_int32(optarg, &number)\<close> is declared in number\_converter.h and defined
  outside the sources at hand. The option handlers take it as a parameter: a function from
  the text to the returned exit code and the \<^verbatim>\<open>signed_num\<close> it leaves in the
  \<^verbatim>\<open>number_t\<close>.\<close>

type_synonym parser = "string \<Rightarrow> int \<times> 32 word"

fun position :: "char \<Rightarrow> string \<Rightarrow> nat \<Rightarrow> nat option" where
  "position c [] k = None"
| "position c (x # xs) k = (if x = c then Some k else position c xs (Suc k))"

definition digit_of :: "char \<Rightarrow> nat option" where
  "digit_of c = position c ''0123456789'' 0"

fun digits_value :: "nat \<Rightarrow> string \<Rightarrow> nat option" where
  "digits_value acc [] = Some acc"
| "digits_value acc (c # cs) =
     (case digit_of c of None \<Rightarrow> None | Some k \<Rightarrow> digits_value (10 * acc + k) cs)"

definition decimal_value :: "string \<Rightarrow> int option" where
  "decimal_value s =
     (case s of
        [] \<Rightarrow> None
      | c # cs \<Rightarrow>
          if c = CHR ''-'' then
            (if cs = [] then None else map_option (\<lambda>k. - int k) (digits_value 0 cs))
          else if c = CHR ''+'' then
            (if cs = [] then None else map_option int (digits_value 0 cs))
          else map_option int (digits_value 0 s))"

text \<open>Modelled from the spec: \<^verbatim>\<open>str_to_int32\<close> (number\_converter.c is missing). The spec
  says of it: ``\<^verbatim>\<open>parseInt32(text) -> Result<int32, NumberError>\<close>: fails when text is
  empty, non-numeric, or exceeds 32-bit signed range''. Numeric text is taken to be an
  optional sign followed by one or more decimal digits. On failure the \<^verbatim>\<open>number_t\<close> keeps
  the zero it was initialised with.\<close>

definition str_to_int32 :: parser where
  "str_to_int32 s =
     (case decimal_value s of
        None \<Rightarrow> (E_FAILURE, 0)
      | Some i \<Rightarrow>
          if - (2 ^ 31) \<le> i \<and> i < 2 ^ 31 then (E_SUCCESS, word_of_int i)
          else (E_FAILURE, 0))"

subsection \<open>The C library's getopt\<close>

text \<open>\<^verbatim>\<open>getopt\<close> is the C library's. The file defines \<^verbatim>\<open>_GNU_SOURCE\<close> and includes
  \<^verbatim>\<open><getopt.h>\<close>, so the model follows the GNU implementation, whose state is the
  public \<^verbatim>\<open>optind\<close>, \<^verbatim>\<open>optarg\<close>, \<^verbatim>\<open>optopt\<close> and the private position inside a
  cluster of flags (\<^verbatim>\<open>nextchar\<close>), the bounds of the non-options skipped so far and the
  ordering mode. The mode is \<open>PERMUTE\<close> by default and \<open>REQUIRE_ORDER\<close> when the
  environment sets \<^verbatim>\<open>POSIXLY_CORRECT\<close> (and in C libraries that do not permute); the option
  string \<^verbatim>\<open>"n:p:h"\<close> of this program selects no other. \<^verbatim>\<open>opterr\<close> keeps its default,
  so getopt prints its own diagnostics. \<^verbatim>\<open>argc\<close> is the length of the vector.\<close>

datatype getopt_ordering = REQUIRE_ORDER | PERMUTE

record getopt_data =
  optind :: nat
  optarg :: "string option"
  optopt :: char
  nextchar :: string
  first_nonopt :: nat
  last_nonopt :: nat
  ordering :: getopt_ordering

text \<open>The state in which a process starts: \<^verbatim>\<open>optind = 1\<close>, nothing pending.\<close>

definition getopt_start :: "getopt_ordering \<Rightarrow> getopt_data" where
  "getopt_start ord =
     \<lparr>optind = 1, optarg = None, optopt = CHR ''?'', nextchar = [],
      first_nonopt = 1, last_nonopt = 1, ordering = ord\<rparr>"

text \<open>\<^verbatim>\<open>NONOPTION_P\<close>: the element does not start with a hyphen, or is a lone hyphen.\<close>

definition NONOPTION_P :: "string list \<Rightarrow> nat \<Rightarrow> bool" where
  "NONOPTION_P argv i =
     (case argv ! i of [] \<Rightarrow> True | c # cs \<Rightarrow> if c = CHR ''-'' then cs = [] else True)"

text \<open>\<^verbatim>\<open>exchange\<close> swaps the block of skipped non-options
  \<open>[first_nonopt, last_nonopt)\<close> with the block of options processed after them
  \<open>[last_nonopt, optind)\<close>, keeping the order inside each block. Its loop does nothing
  unless both blocks are non-empty.\<close>

definition exchange :: "string list \<Rightarrow> getopt_data \<Rightarrow> string list \<times> getopt_data" where
  "exchange argv d =
     (let bottom = first_nonopt d; middle = last_nonopt d; top = optind d in
      (if bottom < middle \<and> middle < top \<and> top \<le> length argv
       then take bottom argv @ take (top - middle) (drop middle argv)
              @ take (middle - bottom) (drop bottom argv) @ drop top argv
       else argv,
       d\<lparr>first_nonopt := first_nonopt d + (optind d - last_nonopt d),
         last_nonopt := optind d\<rparr>))"

text \<open>\<^verbatim>\<open>while (optind < argc && NONOPTION_P) optind++;\<close>\<close>

function skip_nonoptions :: "string list \<Rightarrow> nat \<Rightarrow> nat" where
  "skip_nonoptions argv i =
     (if i < length argv \<and> NONOPTION_P argv i then skip_nonoptions argv (Suc i) else i)"
  by pat_completeness auto
termination
  by (relation "measure (\<lambda>(argv, i). length argv - i)") auto

declare skip_nonoptions.simps [simp del]

fun strchr :: "string \<Rightarrow> char \<Rightarrow> string option" where
  "strchr [] c = None"
| "strchr (x # xs) c = (if x = c then Some (x # xs) else strchr xs c)"

text \<open>The first half of a getopt call, taken when no flag cluster is pending, moves to
  the next element of the vector. It is modelled block by block. First the bounds of the
  skipped non-options are brought back to \<^verbatim>\<open>optind\<close> if they lie beyond it.\<close>

definition getopt_clamp :: "getopt_data \<Rightarrow> getopt_data" where
  "getopt_clamp d0 =
     (let d1 = (if last_nonopt d0 > optind d0 then d0\<lparr>last_nonopt := optind d0\<rparr> else d0)
      in if first_nonopt d1 > optind d1 then d1\<lparr>first_nonopt := optind d1\<rparr> else d1)"

text \<open>In mode \<open>PERMUTE\<close>: options processed after skipped non-options are moved in
  front of them, then further non-options are skipped.\<close>

definition getopt_permute :: "string list \<Rightarrow> getopt_data \<Rightarrow> string list \<times> getopt_data" where
  "getopt_permute argv d =
     (let (a, e) =
            (if first_nonopt d \<noteq> last_nonopt d \<and> last_nonopt d \<noteq> optind d
             then exchange argv d
             else if last_nonopt d \<noteq> optind d then (argv, d\<lparr>first_nonopt := optind d\<rparr>)
             else (argv, d));
          k = skip_nonoptions a (optind e)
      in (a, e\<lparr>optind := k, last_nonopt := k\<rparr>))"

text \<open>The element \<^verbatim>\<open>--\<close> ends the options: it is skipped like an option and everything
  behind it counts as non-option. getopt keeps \<^verbatim>\<open>optind \<le> argc\<close> and tests
  \<^verbatim>\<open>optind != argc\<close> before it reads \<^verbatim>\<open>argv[optind]\<close>; the model reads the vector
  only below its length.\<close>

definition getopt_dashdash :: "string list \<Rightarrow> getopt_data \<Rightarrow> string list \<times> getopt_data" where
  "getopt_dashdash argv d =
     (if optind d < length argv \<and> argv ! optind d = ''--'' then
        (let e0 = d\<lparr>optind := Suc (optind d)\<rparr>;
             (a, e1) =
               (if first_nonopt e0 \<noteq> last_nonopt e0 \<and> last_nonopt e0 \<noteq> optind e0
                then exchange argv e0
                else if first_nonopt e0 = last_nonopt e0
                then (argv, e0\<lparr>first_nonopt := optind e0\<rparr>)
                else (argv, e0))
         in (a, e1\<lparr>last_nonopt := length a, optind := length a\<rparr>))
      else (argv, d))"

text \<open>The result of the first half is either what getopt returns at once (\<open>Inl\<close>), or
  the vector and state with \<^verbatim>\<open>nextchar\<close> set behind the hyphen of the option element
  found (\<open>Inr\<close>). The scan ends for every \<open>optind \<ge> argc\<close>. The value 1 is what getopt
  returns for a non-option in its third mode.\<close>

definition getopt_advance ::
  "string list \<Rightarrow> getopt_data \<Rightarrow>
     (char option \<times> string list \<times> getopt_data) + (string list \<times> getopt_data)" where
  "getopt_advance argv d0 =
     (let d2 = getopt_clamp d0;
          (argv3, d3) = (if ordering d2 = PERMUTE then getopt_permute argv d2 else (argv, d2));
          (argv4, d4) = getopt_dashdash argv3 d3
      in if length argv4 \<le> optind d4 then
           Inl (None, argv4,
                if first_nonopt d4 \<noteq> last_nonopt d4 then d4\<lparr>optind := first_nonopt d4\<rparr>
                else d4)
         else if NONOPTION_P argv4 (optind d4) then
           (if ordering d4 = REQUIRE_ORDER then Inl (None, argv4, d4)
            else Inl (Some (CHR 0x01), argv4,
                      d4\<lparr>optarg := Some (argv4 ! optind d4), optind := Suc (optind d4)\<rparr>))
         else Inr (argv4, d4\<lparr>nextchar := tl (argv4 ! optind d4)\<rparr>))"

text \<open>The second half: look at the next character of the pending cluster. The state
  has a non-empty \<^verbatim>\<open>nextchar\<close> here.\<close>

definition getopt_short ::
  "string list \<Rightarrow> string \<Rightarrow> getopt_data \<Rightarrow>
     char option \<times> string list \<times> getopt_data \<times> event list" where
  "getopt_short argv optstring d0 =
     (let c = hd (nextchar d0);
          d1 = d0\<lparr>nextchar := tl (nextchar d0)\<rparr>;
          temp = strchr optstring c;
          d2 = (if nextchar d1 = [] then d1\<lparr>optind := Suc (optind d1)\<rparr> else d1)
      in if temp = None \<or> c = CHR '':'' \<or> c = CHR '';'' then
           (Some (CHR ''?''), argv, d2\<lparr>optopt := c\<rparr>,
            [Stderr (hd argv @ '': invalid option -- '' @ quote @ [c] @ quote @ nl)])
         else if (case temp of Some (_ # t1 # _) \<Rightarrow> t1 = CHR '':'' | _ \<Rightarrow> False) then
           (if (case temp of Some (_ # _ # t2 # _) \<Rightarrow> t2 = CHR '':'' | _ \<Rightarrow> False) then
              (if nextchar d2 \<noteq> [] then
                 (Some c, argv,
                  d2\<lparr>optarg := Some (nextchar d2), optind := Suc (optind d2), nextchar := []\<rparr>,
                  [])
               else (Some c, argv, d2\<lparr>optarg := None, nextchar := []\<rparr>, []))
            else if nextchar d2 \<noteq> [] then
              (Some c, argv,
               d2\<lparr>optarg := Some (nextchar d2), optind := Suc (optind d2), nextchar := []\<rparr>,
               [])
            else if length argv \<le> optind d2 then
              (Some (CHR ''?''), argv, d2\<lparr>optopt := c, nextchar := []\<rparr>,
               [Stderr (hd argv @ '': option requires an argument -- '' @ quote @ [c]
                          @ quote @ nl)])
            else
              (Some c, argv,
               d2\<lparr>optarg := Some (argv ! optind d2), optind := Suc (optind d2),
                  nextchar := []\<rparr>,
               []))
         else (Some c, argv, d2, []))"

text \<open>A call \<^verbatim>\<open>getopt(argc, argv, optstring)\<close>: the returned value (\<open>None\<close> is
  \<open>-1\<close>, \<open>Some c\<close> the character \<open>c\<close>), the vector, the new state and what was
  written to the diagnostic stream.\<close>

definition getopt ::
  "string list \<Rightarrow> string \<Rightarrow> getopt_data \<Rightarrow>
     char option \<times> string list \<times> getopt_data \<times> event list" where
  "getopt argv optstring d =
     (if length argv < 1 then (None, argv, d, [])
      else
        (let d0 = d\<lparr>optarg := None\<rparr> in
         if nextchar d0 = [] then
           (case getopt_advance argv d0 of
              Inl (r, a, e) \<Rightarrow> (r, a, e, [])
            | Inr (a, e) \<Rightarrow> getopt_short a optstring e)
         else getopt_short argv optstring d0))"

subsection \<open>Reports\<close>

definition print_help_menu :: "event list" where
  "print_help_menu =
     [Stdout (''Net Calc - Cyber Solutions Development - Tactical'' @ nl),
      Stdout (''-------------------------------------------------'' @ nl),
      Stdout (''Usage: ./netcalc [options]'' @ nl),
      Stdout (''Options:'' @ nl),
      Stdout (''  -p PORT   Port to listen on; (MIN: 1025, MAX: 65535) defaults to 31337.'' @ nl),
      Stdout (''  -n NUM    Number of threads in the pool; (MIN: 2) defaults to 4.'' @ nl),
      Stdout (''  -h        Print this help menu and exit.'' @ nl),
      Stdout nl,
      Stdout (''Description:'' @ nl),
      Stdout (''  Net Calc is a server application that performs a variety of operations.'' @ nl),
      Stdout (''  It listens for incoming connections over network sockets, enqueues the data,'' @ nl),
      Stdout (''  and processes the work in a queue with a threadpool.'' @ nl),
      Stdout nl,
      Stdout (''Examples:'' @ nl),
      Stdout (''  netcalc -p 8080 -n 8'' @ nl),
      Stdout (''  netcalc -h'' @ nl),
      Stdout nl,
      Stdout (''For more information, see the documentation.'' @ nl)]"

text \<open>\<^verbatim>\<open>report_invalid_options\<close> reads the global \<^verbatim>\<open>optopt\<close>.\<close>

definition report_invalid_options :: "getopt_data \<Rightarrow> event list" where
  "report_invalid_options d =
     (if optopt d = CHR ''n'' \<or> optopt d = CHR ''p''
      then [Stderr (''Option '' @ quote @ ''-'' @ [optopt d] @ quote @ '' requires an argument.'' @ nl)]
      else [Stderr (''Unknown option '' @ quote @ ''-'' @ [optopt d] @ quote @ ''.'' @ nl)])"

text \<open>The inner loop of \<^verbatim>\<open>report_extra_arguments\<close>:
  \<^verbatim>\<open>while (optind < argc) fprintf(stderr, "%s ", argv[optind++]);\<close>
  Its \<^verbatim>\<open>optind\<close> is the function's own parameter, a copy of the global.\<close>

function report_extra_loop :: "nat \<Rightarrow> string list \<Rightarrow> event list" where
  "report_extra_loop ind argv =
     (if ind < length argv then Stderr (argv ! ind @ '' '') # report_extra_loop (Suc ind) argv
      else [])"
  by pat_completeness auto
termination
  by (relation "measure (\<lambda>(ind, argv). length argv - ind)") auto

declare report_extra_loop.simps [simp del]

text \<open>\<^verbatim>\<open>report_extra_arguments(optind, argc, argv)\<close>. The vector is not null where it is
  called; an empty list stands for \<^verbatim>\<open>NULL == *argv\<close>.\<close>

definition report_extra_arguments :: "nat \<Rightarrow> string list \<Rightarrow> int \<times> event list" where
  "report_extra_arguments ind argv =
     (if argv = [] then (E_FAILURE, [PrintError ''NULL argument passed.''])
      else if ind < length argv then
        (E_FAILURE,
         [Stderr ''Invalid arguments encountered: ''] @ report_extra_loop ind argv @ [Stderr nl])
      else (E_SUCCESS, []))"

subsection \<open>Option handlers\<close>

text \<open>\<^verbatim>\<open>strnlen(s, maxlen)\<close>: the length of \<open>s\<close>, but at most \<open>maxlen\<close>.\<close>

definition strnlen :: "string \<Rightarrow> nat \<Rightarrow> nat" where
  "strnlen s maxlen = (if length s < maxlen then length s else maxlen)"

text \<open>\<^verbatim>\<open>process_n_option(optarg, options_p)\<close>: the exit code, the record and the
  diagnostics. \<^verbatim>\<open>options_p\<close> is the pointer that \<^verbatim>\<open>process_options\<close> has already
  found to be non-null, so only \<^verbatim>\<open>optarg\<close> can be null here.\<close>

definition process_n_option ::
  "parser \<Rightarrow> string option \<Rightarrow> options \<Rightarrow> int \<times> options \<times> event list" where
  "process_n_option conv arg options_p =
     (case arg of
        None \<Rightarrow> (E_FAILURE, options_p, [PrintError ''NULL argument passed.''])
      | Some s \<Rightarrow>
          if n_flag options_p then
            (E_FAILURE, options_p, [PrintError ''process_options(): '-n' flag already true.''])
          else
            (let (exit_code, num_threads) = conv s in
             if E_SUCCESS \<noteq> exit_code then
               (exit_code, options_p, [PrintError ''Unable to convert 'n_value' to number.''])
             else if MIN_NUM_THREADS > sint num_threads then
               (E_FAILURE, options_p,
                [PrintError ''process_options(): Number of threads must be 2 or more.''])
             else (E_SUCCESS, options_p\<lparr>n_flag := True, n_value := num_threads\<rparr>, [])))"

text \<open>\<^verbatim>\<open>process_p_option(optarg, options_p)\<close>. At the length check \<^verbatim>\<open>exit_code\<close> still
  holds the code returned by the conversion.\<close>

definition process_p_option ::
  "parser \<Rightarrow> string option \<Rightarrow> options \<Rightarrow> int \<times> options \<times> event list" where
  "process_p_option conv arg options_p =
     (case arg of
        None \<Rightarrow> (E_FAILURE, options_p, [PrintError ''NULL argument passed.''])
      | Some s \<Rightarrow>
          if p_flag options_p then
            (E_FAILURE, options_p, [PrintError ''process_p_option(): '-p' flag already true.''])
          else
            (let (exit_code, port_number) = conv s in
             if E_SUCCESS \<noteq> exit_code then
               (exit_code, options_p,
                [PrintError ''process_p_option(): Unable to convert 'p_value' to number.''])
             else if MAX_PORT_VALUE < sint port_number \<or> MIN_PORT_VALUE > sint port_number then
               (E_FAILURE, options_p, [PrintError ''process_p_option(): Port number out of range.''])
             else if MAX_PORT_SIZE < strnlen s MAX_PORT_SIZE then
               (exit_code, options_p, [PrintError ''process_p_option(): Port string is too long.''])
             else (E_SUCCESS, options_p\<lparr>p_flag := True, p_value := Some s\<rparr>, [])))"

subsection \<open>The main option handler\<close>

text \<open>What \<^verbatim>\<open>process_options\<close> works on: the vector, the caller's record, the state of
  getopt and the output so far.\<close>

record pstate =
  st_argv :: "string list"
  st_opts :: options
  st_lib :: getopt_data
  st_out :: "event list"

text \<open>How the \<^verbatim>\<open>while\<close> loop is left: by \<^verbatim>\<open>goto END\<close> with the value of
  \<^verbatim>\<open>exit_code\<close> (\<open>Stopped\<close>), or because getopt returned \<open>-1\<close> (\<open>Scanned\<close>).\<close>

datatype scan = Stopped int pstate | Scanned pstate

text \<open>One test of the loop condition and, where it holds, one run of the
  \<^verbatim>\<open>switch\<close>: \<open>Inl\<close> when the loop is left, \<open>Inr\<close> with \<^verbatim>\<open>exit_code\<close> and the state
  for the next iteration.\<close>

definition process_options_step :: "parser \<Rightarrow> int \<Rightarrow> pstate \<Rightarrow> scan + int \<times> pstate" where
  "process_options_step conv exit_code s =
     (let (option, a, d, ev) = getopt (st_argv s) ''n:p:h'' (st_lib s);
          s1 = s\<lparr>st_argv := a, st_lib := d, st_out := st_out s @ ev\<rparr>
      in case option of
           None \<Rightarrow> Inl (Scanned s1)
         | Some c \<Rightarrow>
             if c = CHR ''n'' then
               (let (ec, o1, ev1) = process_n_option conv (optarg d) (st_opts s1) in
                if E_SUCCESS \<noteq> ec then
                  Inl (Stopped ec
                        (s1\<lparr>st_opts := o1,
                            st_out := st_out s1 @ ev1
                              @ [PrintError ''Unable to process 'n' option.'']\<rparr>))
                else Inr (ec, s1\<lparr>st_opts := o1, st_out := st_out s1 @ ev1\<rparr>))
             else if c = CHR ''p'' then
               (let (ec, o1, ev1) = process_p_option conv (optarg d) (st_opts s1) in
                if E_SUCCESS \<noteq> ec then
                  Inl (Stopped ec
                        (s1\<lparr>st_opts := o1,
                            st_out := st_out s1 @ ev1
                              @ [PrintError ''Unable to process 'p' option.'']\<rparr>))
                else Inr (ec, s1\<lparr>st_opts := o1, st_out := st_out s1 @ ev1\<rparr>))
             else if c = CHR ''h'' then Inl (Stopped exit_code s1)
             else if c = CHR ''?'' then
               Inl (Stopped E_FAILURE (s1\<lparr>st_out := st_out s1 @ report_invalid_options d\<rparr>))
             else
               Inl (Stopped E_FAILURE
                     (s1\<lparr>st_out := st_out s1 @ [Stderr (''Unknown option encountered.'' @ nl)]\<rparr>)))"

text \<open>The loop ends because every call of getopt that returns an option character
  moves forward in the vector: what is left to read gets smaller.\<close>

definition remaining :: "string list \<Rightarrow> nat \<Rightarrow> nat" where
  "remaining argv k = sum_list (map (\<lambda>x. Suc (length x)) (drop k argv))"

definition scan_measure :: "string list \<Rightarrow> getopt_data \<Rightarrow> nat" where
  "scan_measure argv d =
     (if nextchar d = [] then remaining argv (optind d)
      else length (nextchar d) + remaining argv (Suc (optind d)))"

subsection \<open>Progress of getopt\<close>

lemma exchange_fields: "exchange argv d = (a, e) \<Longrightarrow> optind e = optind d \<and> nextchar e = nextchar d \<and> ordering e = ordering d"
  by (auto simp: exchange_def Let_def)

lemma exchange_split:
  assumes "exchange argv d = (a, e)"
  shows "a = argv \<or> (\<exists>X. a = X @ drop (optind d) argv \<and> length X = optind d \<and> optind d \<le> length argv)"
proof (cases "first_nonopt d < last_nonopt d \<and> last_nonopt d < optind d \<and> optind d \<le> length argv")
  case True
  let ?X = "take (first_nonopt d) argv @ take (optind d - last_nonopt d) (drop (last_nonopt d) argv)
              @ take (last_nonopt d - first_nonopt d) (drop (first_nonopt d) argv)"
  have "a = ?X @ drop (optind d) argv"
    using assms True by (simp add: exchange_def Let_def)
  moreover have "length ?X = optind d" using True by simp arith
  ultimately show ?thesis using True by blast
next
  case False
  then have "a = argv" using assms by (auto simp add: exchange_def Let_def)
  then show ?thesis by simp
qed

lemma exchange_drop: "exchange argv d = (a, e) \<Longrightarrow> optind d \<le> k \<Longrightarrow> drop k a = drop k argv"
  using exchange_split[of argv d a e] by auto

lemma exchange_length: "exchange argv d = (a, e) \<Longrightarrow> length a = length argv"
  using exchange_split[of argv d a e] by auto


lemma skip_ge: "i \<le> skip_nonoptions argv i"
  by (induction argv i rule: skip_nonoptions.induct) (metis Suc_leD order_refl skip_nonoptions.simps)

lemma remaining_mono: "k \<le> k' \<Longrightarrow> remaining argv k' \<le> remaining argv k"
proof -
  assume "k \<le> k'"
  then obtain m where "k' = k + m" using le_Suc_ex by blast
  then have "drop k argv = take m (drop k argv) @ drop k' argv"
    by (metis add.commute append_take_drop_id drop_drop)
  then have "remaining argv k = sum_list (map (\<lambda>x. Suc (length x)) (take m (drop k argv))) + remaining argv k'"
    unfolding remaining_def by (metis map_append sum_list.append)
  then show ?thesis by simp
qed

lemma remaining_Suc: "k < length argv \<Longrightarrow> remaining argv k = Suc (length (argv ! k)) + remaining argv (Suc k)"
  by (simp add: remaining_def Cons_nth_drop_Suc[symmetric])

lemma clamp_fields: "optind (getopt_clamp d) = optind d \<and> nextchar (getopt_clamp d) = nextchar d \<and> ordering (getopt_clamp d) = ordering d"
  by (simp add: getopt_clamp_def Let_def)



lemma permute_props:
  assumes "getopt_permute argv d = (a, e)"
  shows "optind d \<le> optind e" and "nextchar e = nextchar d" and "ordering e = ordering d"
    and "length a = length argv" and "optind d \<le> k \<Longrightarrow> drop k a = drop k argv"
proof -
  define r where "r = (if first_nonopt d \<noteq> last_nonopt d \<and> last_nonopt d \<noteq> optind d
             then exchange argv d
             else if last_nonopt d \<noteq> optind d then (argv, d\<lparr>first_nonopt := optind d\<rparr>)
             else (argv, d))"
  have "getopt_permute argv d =
          (fst r, (snd r)\<lparr>optind := skip_nonoptions (fst r) (optind (snd r)),
                         last_nonopt := skip_nonoptions (fst r) (optind (snd r))\<rparr>)"
    by (simp add: getopt_permute_def r_def Let_def split_beta)
  with assms have a: "a = fst r"
    and e: "e = (snd r)\<lparr>optind := skip_nonoptions (fst r) (optind (snd r)),
                         last_nonopt := skip_nonoptions (fst r) (optind (snd r))\<rparr>"
    by auto
  have r: "optind (snd r) = optind d \<and> nextchar (snd r) = nextchar d
           \<and> ordering (snd r) = ordering d \<and> length (fst r) = length argv
           \<and> (optind d \<le> k \<longrightarrow> drop k (fst r) = drop k argv)"
  proof (cases "first_nonopt d \<noteq> last_nonopt d \<and> last_nonopt d \<noteq> optind d")
    case True
    then have "exchange argv d = (fst r, snd r)" by (simp add: r_def)
    then show ?thesis
      using exchange_fields[of argv d "fst r" "snd r"] exchange_length[of argv d "fst r" "snd r"]
        exchange_drop[of argv d "fst r" "snd r" k] by simp
  next
    case False
    then show ?thesis by (auto simp: r_def)
  qed
  show "optind d \<le> optind e" using e r skip_ge[of "optind (snd r)" "fst r"] by simp
  show "nextchar e = nextchar d" using e r by simp
  show "ordering e = ordering d" using e r by simp
  show "length a = length argv" using a r by simp
  show "optind d \<le> k \<Longrightarrow> drop k a = drop k argv" using a r by simp
qed

lemma dashdash_props:
  assumes "getopt_dashdash argv d = (a, e)"
  shows "(a = argv \<and> e = d) \<or> length a \<le> optind e"
proof (cases "optind d < length argv \<and> argv ! optind d = ''--''")
  case True
  then have "optind (snd (getopt_dashdash argv d)) = length (fst (getopt_dashdash argv d))"
    by (simp add: getopt_dashdash_def Let_def split_beta)
  then show ?thesis using assms by simp
next
  case False
  then have "getopt_dashdash argv d = (argv, d)" by (auto simp add: getopt_dashdash_def)
  then show ?thesis using assms by simp
qed

lemma nonoption_elim: "\<not> NONOPTION_P argv i \<Longrightarrow> \<exists>x xs. argv ! i = CHR ''-'' # x # xs"
  by (cases "argv ! i") (auto simp: NONOPTION_P_def neq_Nil_conv split: if_splits)

lemma advance_props:
  assumes nc: "nextchar d = []"
  shows "getopt_advance argv d = Inr (a, e) \<Longrightarrow>
           nextchar e \<noteq> [] \<and> scan_measure a e < scan_measure argv d"
    and "getopt_advance argv d = Inl (Some c, a, e) \<Longrightarrow> scan_measure a e < scan_measure argv d"
proof -
  define d2 where "d2 = getopt_clamp d"
  define r3 where "r3 = (if ordering d2 = PERMUTE then getopt_permute argv d2 else (argv, d2))"
  define r4 where "r4 = getopt_dashdash (fst r3) (snd r3)"
  define argv4 where "argv4 = fst r4"
  define d4 where "d4 = snd r4"
  have adv: "getopt_advance argv d =
     (if length argv4 \<le> optind d4 then
           Inl (None, argv4,
                if first_nonopt d4 \<noteq> last_nonopt d4 then d4\<lparr>optind := first_nonopt d4\<rparr>
                else d4)
         else if NONOPTION_P argv4 (optind d4) then
           (if ordering d4 = REQUIRE_ORDER then Inl (None, argv4, d4)
            else Inl (Some (CHR 0x01), argv4,
                      d4\<lparr>optarg := Some (argv4 ! optind d4), optind := Suc (optind d4)\<rparr>))
         else Inr (argv4, d4\<lparr>nextchar := tl (argv4 ! optind d4)\<rparr>))"
    by (simp add: getopt_advance_def Let_def split_beta d2_def r3_def r4_def argv4_def d4_def)
  have d2: "optind d2 = optind d \<and> nextchar d2 = []"
    using nc by (simp add: d2_def clamp_fields)
  have r3: "optind d \<le> optind (snd r3) \<and> nextchar (snd r3) = []
            \<and> drop (optind (snd r3)) (fst r3) = drop (optind (snd r3)) argv"
  proof (cases "ordering d2 = PERMUTE")
    case True
    then have p: "getopt_permute argv d2 = (fst r3, snd r3)" by (simp add: r3_def)
    have le: "optind d2 \<le> optind (snd r3)" by (rule permute_props(1)[OF p])
    show ?thesis
      using le permute_props(2)[OF p] permute_props(5)[OF p le] d2 by simp
  next
    case False
    then show ?thesis using d2 by (simp add: r3_def)
  qed
  have r4: "length argv4 \<le> optind d4 \<or> (argv4 = fst r3 \<and> d4 = snd r3)"
    using dashdash_props[of "fst r3" "snd r3" argv4 d4] by (auto simp: r4_def argv4_def d4_def)
  have key: "\<not> length argv4 \<le> optind d4 \<Longrightarrow>
               nextchar d4 = [] \<and> remaining argv4 (optind d4) \<le> scan_measure argv d"
  proof -
    assume "\<not> length argv4 \<le> optind d4"
    with r4 have eq: "argv4 = fst r3" "d4 = snd r3" by simp_all
    have "remaining argv4 (optind d4) = remaining argv (optind d4)"
      using r3 eq by (simp add: remaining_def)
    also have "\<dots> \<le> remaining argv (optind d)"
      using r3 eq by (simp add: remaining_mono)
    finally show ?thesis using r3 eq nc by (simp add: scan_measure_def)
  qed
  {
    assume res: "getopt_advance argv d = Inr (a, e)"
    then have lt: "\<not> length argv4 \<le> optind d4" and no: "\<not> NONOPTION_P argv4 (optind d4)"
      and a: "a = argv4" and e: "e = d4\<lparr>nextchar := tl (argv4 ! optind d4)\<rparr>"
      unfolding adv by (auto split: if_splits)
    from no obtain x xs where el: "argv4 ! optind d4 = CHR ''-'' # x # xs"
      using nonoption_elim by blast
    have "remaining argv4 (optind d4) =
            Suc (length (argv4 ! optind d4)) + remaining argv4 (Suc (optind d4))"
      using lt by (simp add: remaining_Suc)
    then show "nextchar e \<noteq> [] \<and> scan_measure a e < scan_measure argv d"
      using key[OF lt] a e el by (simp add: scan_measure_def)
  }
  {
    assume res: "getopt_advance argv d = Inl (Some c, a, e)"
    then have lt: "\<not> length argv4 \<le> optind d4"
      and a: "a = argv4"
      and e: "e = d4\<lparr>optarg := Some (argv4 ! optind d4), optind := Suc (optind d4)\<rparr>"
      unfolding adv by (auto split: if_splits)
    have "remaining argv4 (optind d4) =
            Suc (length (argv4 ! optind d4)) + remaining argv4 (Suc (optind d4))"
      using lt by (simp add: remaining_Suc)
    then show "scan_measure a e < scan_measure argv d"
      using key[OF lt] a e by (simp add: scan_measure_def)
  }
qed


lemma short_props:
  assumes nc: "nextchar d \<noteq> []" and res: "getopt_short argv os d = (r, a, e, ev)"
  shows "a = argv" and "scan_measure a e < scan_measure argv d"
proof -
  define d2 where "d2 = (if tl (nextchar d) = [] then d\<lparr>nextchar := tl (nextchar d), optind := Suc (optind d)\<rparr>
                         else d\<lparr>nextchar := tl (nextchar d)\<rparr>)"
  have m2: "scan_measure argv d2 < scan_measure argv d"
    using nc by (cases "nextchar d") (auto simp: d2_def scan_measure_def)
  have shape: "a = argv \<and> ((optind e = optind d2 \<and> nextchar e = nextchar d2)
                  \<or> (nextchar e = [] \<and> optind e = Suc (optind d2)))"
    using res unfolding getopt_short_def Let_def d2_def
    by (simp split: if_splits; auto)
  show "a = argv" using shape by simp
  have "scan_measure argv e \<le> scan_measure argv d2"
  proof -
    from shape consider "optind e = optind d2 \<and> nextchar e = nextchar d2"
      | "nextchar e = [] \<and> optind e = Suc (optind d2)" by blast
    then show ?thesis
    proof cases
      case 1
      then show ?thesis by (simp add: scan_measure_def)
    next
      case 2
      then show ?thesis
        using remaining_mono[of "optind d2" "Suc (optind d2)" argv]
        by (simp add: scan_measure_def)
    qed
  qed
  then show "scan_measure a e < scan_measure argv d" using m2 shape by simp
qed

lemma getopt_decreases:
  assumes "getopt argv os d = (Some c, a, e, ev)"
  shows "scan_measure a e < scan_measure argv d"
proof (cases "length argv < 1")
  case True
  then show ?thesis using assms by (simp add: getopt_def)
next
  case False
  note ne = this
  show ?thesis
  proof (cases "nextchar d = []")
    case True
    have m0: "scan_measure argv (d\<lparr>optarg := None\<rparr>) = scan_measure argv d"
      by (simp add: scan_measure_def)
    have nc0: "nextchar (d\<lparr>optarg := None\<rparr>) = []" using True by simp
    show ?thesis
    proof (cases "getopt_advance argv (d\<lparr>optarg := None\<rparr>)")
      case (Inl t)
      then obtain r a' e' where t: "t = (r, a', e')" by (cases t) auto
      with Inl assms ne True have "r = Some c" "a' = a" "e' = e"
        by (simp_all add: getopt_def)
      then show ?thesis using advance_props(2)[OF nc0, of argv c a e] Inl t m0 by simp
    next
      case (Inr t)
      then obtain a' e' where t: "t = (a', e')" by (cases t) auto
      with Inr assms ne True have s: "getopt_short a' os e' = (Some c, a, e, ev)"
        by (simp add: getopt_def)
      have "nextchar e' \<noteq> [] \<and> scan_measure a' e' < scan_measure argv (d\<lparr>optarg := None\<rparr>)"
        using advance_props(1)[OF nc0, of argv a' e'] Inr t by simp
      then show ?thesis using short_props[OF _ s] m0 by simp
    qed
  next
    case False
    have m0: "scan_measure argv (d\<lparr>optarg := None\<rparr>) = scan_measure argv d"
      by (simp add: scan_measure_def)
    from False assms ne have s: "getopt_short argv os (d\<lparr>optarg := None\<rparr>) = (Some c, a, e, ev)"
      by (simp add: getopt_def)
    show ?thesis using short_props[OF _ s] False m0 by simp
  qed
qed

lemma step_decreases:
  assumes "process_options_step conv exit_code s = Inr (ec, s')"
  shows "scan_measure (st_argv s') (st_lib s') < scan_measure (st_argv s) (st_lib s)"
proof -
  obtain option a d ev where g: "getopt (st_argv s) ''n:p:h'' (st_lib s) = (option, a, d, ev)"
    by (cases "getopt (st_argv s) ''n:p:h'' (st_lib s)") auto
  from assms g obtain c where c: "option = Some c"
    by (cases option) (auto simp: process_options_step_def)
  from assms g c have "st_argv s' = a \<and> st_lib s' = d"
    by (auto simp: process_options_step_def Let_def split: if_splits prod.splits)
  then show ?thesis using getopt_decreases[of "st_argv s" "''n:p:h''" "st_lib s" c a d ev] g c
    by simp
qed

text \<open>The \<^verbatim>\<open>while\<close> loop of \<^verbatim>\<open>process_options\<close>.\<close>

function process_options_loop :: "parser \<Rightarrow> int \<Rightarrow> pstate \<Rightarrow> scan" where
  "process_options_loop conv exit_code s =
     (case process_options_step conv exit_code s of
        Inl r \<Rightarrow> r
      | Inr (ec, s') \<Rightarrow> process_options_loop conv ec s')"
  by pat_completeness auto
termination
  by (relation "measure (\<lambda>(conv, exit_code, s). scan_measure (st_argv s) (st_lib s))")
     (auto dest: step_decreases)

declare process_options_loop.simps [simp del]

text \<open>What a call of \<^verbatim>\<open>process_options\<close> leaves behind: the returned code, the vector
  and the record as the caller finds them (\<open>None\<close> where the caller passed a null
  pointer), the state of getopt, and the output.\<close>

record outcome =
  ret :: int
  res_argv :: "string list option"
  res_opts :: "options option"
  res_lib :: getopt_data
  res_out :: "event list"

text \<open>The label \<^verbatim>\<open>END\<close>: the help menu is printed when \<^verbatim>\<open>exit_code\<close> is
  \<^verbatim>\<open>E_FAILURE\<close>.\<close>

definition process_options_end :: "int \<Rightarrow> pstate \<Rightarrow> outcome" where
  "process_options_end exit_code s =
     \<lparr>ret = exit_code, res_argv = Some (st_argv s), res_opts = Some (st_opts s),
      res_lib = st_lib s,
      res_out = st_out s @ (if E_FAILURE = exit_code then print_help_menu else [])\<rparr>"

text \<open>\<^verbatim>\<open>process_options(argc, argv, options_p)\<close>, started with getopt in state \<open>d\<close>.
  An empty vector stands for \<^verbatim>\<open>NULL == *argv\<close>.\<close>

definition process_options ::
  "parser \<Rightarrow> string list option \<Rightarrow> options option \<Rightarrow> getopt_data \<Rightarrow> outcome" where
  "process_options conv argv options_p d =
     (if argv = None \<or> argv = Some [] \<or> options_p = None then
        \<lparr>ret = E_FAILURE, res_argv = argv, res_opts = options_p, res_lib = d,
         res_out = [PrintError ''process_options(): NULL argument passed.''] @ print_help_menu\<rparr>
      else
        (case process_options_loop conv E_FAILURE
                \<lparr>st_argv = the argv, st_opts = the options_p, st_lib = d, st_out = []\<rparr> of
           Stopped exit_code s \<Rightarrow> process_options_end exit_code s
         | Scanned s \<Rightarrow>
             (let (exit_code, ev) = report_extra_arguments (optind (st_lib s)) (st_argv s) in
              if E_SUCCESS \<noteq> exit_code then
                process_options_end exit_code
                  (s\<lparr>st_out := st_out s @ ev @ [PrintError ''Invalid arguments passed.'']\<rparr>)
              else process_options_end E_SUCCESS (s\<lparr>st_out := st_out s @ ev\<rparr>))))"

text \<open>A record with nothing set, as a caller that zero-initialises it passes it in.\<close>

definition options_zero :: options where
  "options_zero = \<lparr>n_flag = False, n_value = 0, p_flag = False, p_value = None\<rparr>"

text \<open>The state after \<open>k\<close> full iterations of the loop, if the loop runs that long.\<close>

fun process_options_iter :: "parser \<Rightarrow> nat \<Rightarrow> int \<Rightarrow> pstate \<Rightarrow> (int \<times> pstate) option" where
  "process_options_iter conv 0 exit_code s = Some (exit_code, s)"
| "process_options_iter conv (Suc k) exit_code s =
     (case process_options_step conv exit_code s of
        Inl r \<Rightarrow> None
      | Inr (ec, s') \<Rightarrow> process_options_iter conv k ec s')"

subsection \<open>Notions used in the properties\<close>

text \<open>The state in which a loop result leaves the handler.\<close>

definition scan_state :: "scan \<Rightarrow> pstate" where
  "scan_state r = (case r of Stopped ec s \<Rightarrow> s | Scanned s \<Rightarrow> s)"

text \<open>The statements of \<^verbatim>\<open>process_options\<close> behind the loop, as a function of how the
  loop was left.\<close>

definition process_options_tail :: "scan \<Rightarrow> outcome" where
  "process_options_tail r =
     (case r of
        Stopped exit_code s \<Rightarrow> process_options_end exit_code s
      | Scanned s \<Rightarrow>
          (let (exit_code, ev) = report_extra_arguments (optind (st_lib s)) (st_argv s) in
           if E_SUCCESS \<noteq> exit_code then
             process_options_end exit_code
               (s\<lparr>st_out := st_out s @ ev @ [PrintError ''Invalid arguments passed.'']\<rparr>)
           else process_options_end E_SUCCESS (s\<lparr>st_out := st_out s @ ev\<rparr>)))"

text \<open>Relative to the record \<open>opts\<close> that the caller passed in, each option of
  \<open>opts'\<close> is either exactly as in \<open>opts\<close>, or was unset and is now set together with a
  value that passed validation.\<close>

definition no_partial_option :: "parser \<Rightarrow> options \<Rightarrow> options \<Rightarrow> bool" where
  "no_partial_option conv opts opts' =
     (((n_flag opts' = n_flag opts \<and> n_value opts' = n_value opts)
        \<or> (n_flag opts = False \<and> n_flag opts' = True \<and> MIN_NUM_THREADS \<le> sint (n_value opts')))
      \<and> ((p_flag opts' = p_flag opts \<and> p_value opts' = p_value opts)
        \<or> (p_flag opts = False \<and> p_flag opts' = True
            \<and> (case p_value opts' of
                  None \<Rightarrow> False
                | Some t \<Rightarrow> fst (conv t) = E_SUCCESS \<and> MIN_PORT_VALUE \<le> sint (snd (conv t))
                            \<and> sint (snd (conv t)) \<le> MAX_PORT_VALUE))))"

text \<open>Two states of getopt with the same cursor: they differ at most in \<^verbatim>\<open>optarg\<close>
  and \<^verbatim>\<open>optopt\<close>. The same for two states of the handler and two loop results.\<close>

definition same_cursor :: "getopt_data \<Rightarrow> getopt_data \<Rightarrow> bool" where
  "same_cursor d d' =
     (optind d' = optind d \<and> nextchar d' = nextchar d \<and> first_nonopt d' = first_nonopt d
      \<and> last_nonopt d' = last_nonopt d \<and> ordering d' = ordering d)"

definition same_run :: "pstate \<Rightarrow> pstate \<Rightarrow> bool" where
  "same_run s s' =
     (st_argv s' = st_argv s \<and> st_opts s' = st_opts s \<and> st_out s' = st_out s
      \<and> same_cursor (st_lib s) (st_lib s'))"

definition same_scan :: "scan \<Rightarrow> scan \<Rightarrow> bool" where
  "same_scan r r' =
     (case r of
        Stopped c t \<Rightarrow> (case r' of Stopped c' t' \<Rightarrow> c' = c \<and> same_run t t' | Scanned t' \<Rightarrow> False)
      | Scanned t \<Rightarrow> (case r' of Stopped c' t' \<Rightarrow> False | Scanned t' \<Rightarrow> same_run t t'))"

subsection \<open>Auxiliary facts about the loop and the handlers\<close>

lemma loop_stop: "process_options_step conv ec s = Inl r \<Longrightarrow> process_options_loop conv ec s = r"
  by (simp add: process_options_loop.simps)

lemma loop_continue:
  "process_options_step conv ec s = Inr (ec', s') \<Longrightarrow>
     process_options_loop conv ec s = process_options_loop conv ec' s'"
  by (simp add: process_options_loop.simps)

lemma iter_loop:
  "process_options_iter conv k ec s = Some (ec', s') \<Longrightarrow>
     process_options_loop conv ec s = process_options_loop conv ec' s'"
proof (induction k arbitrary: ec s)
  case 0
  then show ?case by simp
next
  case (Suc k)
  then obtain ec1 s1 where st: "process_options_step conv ec s = Inr (ec1, s1)"
    and it: "process_options_iter conv k ec1 s1 = Some (ec', s')"
    by (auto split: sum.splits)
  show ?case using loop_continue[OF st] Suc.IH[OF it] by simp
qed

lemma process_options_unfold:
  "argv \<noteq> [] \<Longrightarrow>
   process_options conv (Some argv) (Some opts) d =
     (case process_options_loop conv E_FAILURE
             \<lparr>st_argv = argv, st_opts = opts, st_lib = d, st_out = []\<rparr> of
        Stopped exit_code s \<Rightarrow> process_options_end exit_code s
      | Scanned s \<Rightarrow>
          (let (exit_code, ev) = report_extra_arguments (optind (st_lib s)) (st_argv s) in
           if E_SUCCESS \<noteq> exit_code then
             process_options_end exit_code
               (s\<lparr>st_out := st_out s @ ev @ [PrintError ''Invalid arguments passed.'']\<rparr>)
           else process_options_end E_SUCCESS (s\<lparr>st_out := st_out s @ ev\<rparr>)))"
  by (simp add: process_options_def)

lemma report_extra_loop_eq:
  "report_extra_loop ind argv = map (\<lambda>t. Stderr (t @ '' '')) (drop ind argv)"
proof (induction ind argv rule: report_extra_loop.induct)
  case (1 ind argv)
  show ?case
  proof (cases "ind < length argv")
    case True
    then show ?thesis
      using 1 by (subst report_extra_loop.simps) (simp add: Cons_nth_drop_Suc[symmetric])
  next
    case False
    then show ?thesis by (subst report_extra_loop.simps) simp
  qed
qed

lemma short_ret:
  "getopt_short argv os d = (Some c, a, e, ev) \<Longrightarrow> c = CHR ''?'' \<or> c = hd (nextchar d)"
  unfolding getopt_short_def Let_def by (simp split: if_splits)

lemma short_arg_n:
  assumes "getopt_short argv ''n:p:h'' d = (r, a, e, ev)" and "r \<noteq> Some (CHR ''?'')"
    and "hd (nextchar d) = CHR ''n''"
  shows "optarg e \<noteq> None"
  using assms unfolding getopt_short_def Let_def by (simp split: if_splits; auto)

lemma short_arg_p:
  assumes "getopt_short argv ''n:p:h'' d = (r, a, e, ev)" and "r \<noteq> Some (CHR ''?'')"
    and "hd (nextchar d) = CHR ''p''"
  shows "optarg e \<noteq> None"
  using assms unfolding getopt_short_def Let_def by (simp split: if_splits; auto)

lemma short_has_arg:
  assumes "getopt_short argv ''n:p:h'' d = (Some c, a, e, ev)" and "c = CHR ''n'' \<or> c = CHR ''p''"
  shows "optarg e \<noteq> None"
proof -
  have q: "Some c \<noteq> Some (CHR ''?'')" using assms(2) by auto
  have h: "c = hd (nextchar d)" using short_ret[OF assms(1)] assms(2) by auto
  show ?thesis
    using assms(2) h short_arg_n[OF assms(1) q] short_arg_p[OF assms(1) q] by auto
qed

lemma advance_Inl_code:
  "getopt_advance argv d = Inl (r, a, e) \<Longrightarrow> r = None \<or> r = Some (CHR 0x01)"
  by (auto simp: getopt_advance_def Let_def split_beta split: if_splits)

lemma getopt_has_arg:
  assumes "getopt argv ''n:p:h'' d = (Some c, a, e, ev)" and "c = CHR ''n'' \<or> c = CHR ''p''"
  shows "optarg e \<noteq> None"
proof -
  have ne: "\<not> length argv < 1" using assms by (auto simp: getopt_def)
  show ?thesis
  proof (cases "nextchar d = []")
    case True
    show ?thesis
    proof (cases "getopt_advance argv (d\<lparr>optarg := None\<rparr>)")
      case (Inl t)
      obtain r a' e' where t: "t = (r, a', e')" by (cases t) auto
      with Inl assms(1) ne True have "r = Some c" by (simp add: getopt_def)
      with advance_Inl_code[of argv "d\<lparr>optarg := None\<rparr>" r a' e'] Inl t assms(2)
      show ?thesis by auto
    next
      case (Inr t)
      obtain a' e' where t: "t = (a', e')" by (cases t) auto
      with Inr assms(1) ne True have "getopt_short a' ''n:p:h'' e' = (Some c, a, e, ev)"
        by (simp add: getopt_def)
      then show ?thesis using short_has_arg assms(2) by blast
    qed
  next
    case False
    with assms(1) ne have "getopt_short argv ''n:p:h'' (d\<lparr>optarg := None\<rparr>) = (Some c, a, e, ev)"
      by (simp add: getopt_def)
    then show ?thesis using short_has_arg assms(2) by blast
  qed
qed

lemma n_handler_fail_keeps:
  "fst (process_n_option conv arg opts) \<noteq> E_SUCCESS \<Longrightarrow>
     fst (snd (process_n_option conv arg opts)) = opts"
  by (auto simp: process_n_option_def Let_def split: option.splits prod.splits if_splits)

lemma p_handler_fail_keeps:
  "fst (process_p_option conv arg opts) \<noteq> E_SUCCESS \<Longrightarrow>
     fst (snd (process_p_option conv arg opts)) = opts"
  by (auto simp: process_p_option_def Let_def strnlen_def MAX_PORT_SIZE_def split: option.splits prod.splits if_splits)

lemma step_stop_n:
  assumes "getopt (st_argv s) ''n:p:h'' (st_lib s) = (Some (CHR ''n''), a, d, ev)"
    and "fst (process_n_option conv (optarg d) (st_opts s)) \<noteq> E_SUCCESS"
  shows "process_options_loop conv ec s =
           Stopped (fst (process_n_option conv (optarg d) (st_opts s)))
             (s\<lparr>st_argv := a, st_lib := d,
                st_out := st_out s @ ev @ snd (snd (process_n_option conv (optarg d) (st_opts s)))
                            @ [PrintError ''Unable to process 'n' option.'']\<rparr>)"
proof -
  have "fst (snd (process_n_option conv (optarg d) (st_opts s))) = st_opts s"
    using assms(2) by (rule n_handler_fail_keeps)
  then have "process_options_step conv ec s =
           Inl (Stopped (fst (process_n_option conv (optarg d) (st_opts s)))
             (s\<lparr>st_argv := a, st_lib := d,
                st_out := st_out s @ ev @ snd (snd (process_n_option conv (optarg d) (st_opts s)))
                            @ [PrintError ''Unable to process 'n' option.'']\<rparr>))"
    using assms by (simp add: process_options_step_def split_beta)
  then show ?thesis by (rule loop_stop)
qed

lemma step_stop_p:
  assumes "getopt (st_argv s) ''n:p:h'' (st_lib s) = (Some (CHR ''p''), a, d, ev)"
    and "fst (process_p_option conv (optarg d) (st_opts s)) \<noteq> E_SUCCESS"
  shows "process_options_loop conv ec s =
           Stopped (fst (process_p_option conv (optarg d) (st_opts s)))
             (s\<lparr>st_argv := a, st_lib := d,
                st_out := st_out s @ ev @ snd (snd (process_p_option conv (optarg d) (st_opts s)))
                            @ [PrintError ''Unable to process 'p' option.'']\<rparr>)"
proof -
  have "fst (snd (process_p_option conv (optarg d) (st_opts s))) = st_opts s"
    using assms(2) by (rule p_handler_fail_keeps)
  then have "process_options_step conv ec s =
           Inl (Stopped (fst (process_p_option conv (optarg d) (st_opts s)))
             (s\<lparr>st_argv := a, st_lib := d,
                st_out := st_out s @ ev @ snd (snd (process_p_option conv (optarg d) (st_opts s)))
                            @ [PrintError ''Unable to process 'p' option.'']\<rparr>))"
    using assms by (simp add: process_options_step_def split_beta)
  then show ?thesis by (rule loop_stop)
qed

lemma step_stop_other:
  assumes "getopt (st_argv s) ''n:p:h'' (st_lib s) = (Some c, a, d, ev)"
    and "c \<noteq> CHR ''n''" and "c \<noteq> CHR ''p''"
  shows "process_options_loop conv ec s =
           Stopped (if c = CHR ''h'' then ec else E_FAILURE)
             (s\<lparr>st_argv := a, st_lib := d,
                st_out := st_out s @ ev @
                  (if c = CHR ''h'' then []
                   else if c = CHR ''?'' then report_invalid_options d
                   else [Stderr (''Unknown option encountered.'' @ nl)])\<rparr>)"
proof -
  have "process_options_step conv ec s =
           Inl (Stopped (if c = CHR ''h'' then ec else E_FAILURE)
             (s\<lparr>st_argv := a, st_lib := d,
                st_out := st_out s @ ev @
                  (if c = CHR ''h'' then []
                   else if c = CHR ''?'' then report_invalid_options d
                   else [Stderr (''Unknown option encountered.'' @ nl)])\<rparr>))"
    using assms by (simp add: process_options_step_def)
  then show ?thesis by (rule loop_stop)
qed

lemma process_options_stopped:
  assumes "argv \<noteq> []"
    and "process_options_iter conv k E_FAILURE
           \<lparr>st_argv = argv, st_opts = opts, st_lib = d0, st_out = []\<rparr> = Some (ec, s)"
    and "process_options_loop conv ec s = Stopped ec' s'"
  shows "process_options conv (Some argv) (Some opts) d0 = process_options_end ec' s'"
  using assms(3) iter_loop[OF assms(2)] by (simp add: process_options_unfold[OF assms(1)])

lemma no_partial_refl: "no_partial_option conv opts opts"
  by (simp add: no_partial_option_def)

lemma n_handler_cases:
  "fst (snd (process_n_option conv arg o1)) = o1
   \<or> (n_flag o1 = False
       \<and> (\<exists>v. fst (snd (process_n_option conv arg o1)) = o1\<lparr>n_flag := True, n_value := v\<rparr>
              \<and> MIN_NUM_THREADS \<le> sint v))"
proof (cases arg)
  case None
  then show ?thesis by (simp add: process_n_option_def)
next
  case (Some t)
  obtain ec v where c: "conv t = (ec, v)" by (cases "conv t") auto
  show ?thesis using Some c by (auto simp: process_n_option_def)
qed

lemma p_handler_cases:
  "fst (snd (process_p_option conv arg o1)) = o1
   \<or> (p_flag o1 = False
       \<and> (\<exists>t. fst (snd (process_p_option conv arg o1)) = o1\<lparr>p_flag := True, p_value := Some t\<rparr>
              \<and> fst (conv t) = E_SUCCESS \<and> MIN_PORT_VALUE \<le> sint (snd (conv t))
              \<and> sint (snd (conv t)) \<le> MAX_PORT_VALUE))"
proof (cases arg)
  case None
  then show ?thesis by (simp add: process_p_option_def)
next
  case (Some t)
  obtain ec v where c: "conv t = (ec, v)" by (cases "conv t") auto
  show ?thesis using Some c by (auto simp: process_p_option_def)
qed

lemma n_handler_inv:
  assumes "no_partial_option conv opts o1"
  shows "no_partial_option conv opts (fst (snd (process_n_option conv arg o1)))"
  using n_handler_cases[of conv arg o1] assms
  by (auto simp: no_partial_option_def)

lemma p_handler_inv:
  assumes "no_partial_option conv opts o1"
  shows "no_partial_option conv opts (fst (snd (process_p_option conv arg o1)))"
  using p_handler_cases[of conv arg o1] assms
  by (auto simp: no_partial_option_def)

lemma step_opts:
  "(case process_options_step conv ec s of
      Inl r \<Rightarrow> st_opts (scan_state r)
    | Inr (ec', s') \<Rightarrow> st_opts s')
   \<in> {st_opts s,
       fst (snd (process_n_option conv (optarg (fst (snd (snd (getopt (st_argv s) ''n:p:h'' (st_lib s)))))) (st_opts s))),
       fst (snd (process_p_option conv (optarg (fst (snd (snd (getopt (st_argv s) ''n:p:h'' (st_lib s)))))) (st_opts s)))}"
  by (simp add: process_options_step_def scan_state_def split_beta Let_def split: option.split)

lemma step_inv:
  assumes "no_partial_option conv opts (st_opts s)"
  shows "process_options_step conv ec s = Inl r \<Longrightarrow> no_partial_option conv opts (st_opts (scan_state r))"
    and "process_options_step conv ec s = Inr (ec', s') \<Longrightarrow> no_partial_option conv opts (st_opts s')"
  using step_opts[of conv ec s] assms n_handler_inv[OF assms] p_handler_inv[OF assms]
  by auto

lemma loop_inv:
  "no_partial_option conv opts (st_opts s) \<Longrightarrow>
     no_partial_option conv opts (st_opts (scan_state (process_options_loop conv ec s)))"
proof (induction conv ec s rule: process_options_loop.induct)
  case (1 conv ec s)
  show ?case
  proof (cases "process_options_step conv ec s")
    case (Inl r)
    then show ?thesis using step_inv(1)[OF 1(2) Inl] loop_stop[OF Inl] by simp
  next
    case (Inr t)
    obtain ec' s' where t: "t = (ec', s')" by (cases t) auto
    have st: "process_options_step conv ec s = Inr (ec', s')" using Inr t by simp
    have "no_partial_option conv opts (st_opts s')" using step_inv(2)[OF 1(2) st] .
    then show ?thesis using 1(1)[OF Inr t[symmetric]] loop_continue[OF st] by simp
  qed
qed

lemma process_options_opts:
  "argv \<noteq> [] \<Longrightarrow>
   res_opts (process_options conv (Some argv) (Some opts) d) =
     Some (st_opts (scan_state (process_options_loop conv E_FAILURE
             \<lparr>st_argv = argv, st_opts = opts, st_lib = d, st_out = []\<rparr>)))"
  by (simp add: process_options_unfold process_options_end_def scan_state_def split_beta
      split: scan.split)

lemma same_cursor_eq:
  "same_cursor d d' \<longleftrightarrow> d' = d\<lparr>optarg := optarg d', optopt := optopt d'\<rparr>"
  by (cases d; cases d') (auto simp: same_cursor_def)

lemma clamp_optopt: "getopt_clamp (d\<lparr>optopt := y\<rparr>) = (getopt_clamp d)\<lparr>optopt := y\<rparr>"
  by (simp add: getopt_clamp_def Let_def)

lemma exchange_optopt:
  "exchange argv (d\<lparr>optopt := y\<rparr>) = (fst (exchange argv d), (snd (exchange argv d))\<lparr>optopt := y\<rparr>)"
  by (simp add: exchange_def Let_def)

lemma permute_optopt:
  "getopt_permute argv (d\<lparr>optopt := y\<rparr>)
     = (fst (getopt_permute argv d), (snd (getopt_permute argv d))\<lparr>optopt := y\<rparr>)"
  by (simp add: getopt_permute_def Let_def split_beta exchange_optopt)

lemma dashdash_optopt:
  "getopt_dashdash argv (d\<lparr>optopt := y\<rparr>)
     = (fst (getopt_dashdash argv d), (snd (getopt_dashdash argv d))\<lparr>optopt := y\<rparr>)"
  by (simp add: getopt_dashdash_def Let_def split_beta exchange_def)

lemma advance_optopt:
  "getopt_advance argv (d\<lparr>optopt := y\<rparr>)
     = (case getopt_advance argv d of
          Inl (r, a, e) \<Rightarrow> Inl (r, a, e\<lparr>optopt := y\<rparr>)
        | Inr (a, e) \<Rightarrow> Inr (a, e\<lparr>optopt := y\<rparr>))"
  by (simp add: getopt_advance_def Let_def split_beta clamp_optopt permute_optopt dashdash_optopt)


lemma strchr_nph:
  "strchr ''n:p:h'' c =
     (if c = CHR ''n'' then Some ''n:p:h'' else if c = CHR '':'' then Some '':p:h''
      else if c = CHR ''p'' then Some ''p:h'' else if c = CHR ''h'' then Some ''h'' else None)"
  by simp

lemma short_optopt:
  assumes "getopt_short argv ''n:p:h'' d = (r, a, e, ev)"
  shows "getopt_short argv ''n:p:h'' (d\<lparr>optopt := y\<rparr>)
           = (r, a, e\<lparr>optopt := (if r = Some (CHR ''?'') then optopt e else y)\<rparr>, ev)"
proof -
  consider (n) "hd (nextchar d) = CHR ''n''" | (p) "hd (nextchar d) = CHR ''p''"
    | (h) "hd (nextchar d) = CHR ''h''"
    | (o) "hd (nextchar d) \<noteq> CHR ''n'' \<and> hd (nextchar d) \<noteq> CHR ''p'' \<and> hd (nextchar d) \<noteq> CHR ''h''"
    by blast
  then show ?thesis
  proof cases
    case n
    then show ?thesis using assms unfolding getopt_short_def Let_def
      by (simp split: if_splits; auto)
  next
    case p
    then show ?thesis using assms unfolding getopt_short_def Let_def
      by (simp split: if_splits; auto)
  next
    case h
    then show ?thesis using assms unfolding getopt_short_def Let_def
      by (simp split: if_splits; auto)
  next
    case o
    then show ?thesis using assms unfolding getopt_short_def Let_def strchr_nph
      by (simp split: if_splits; auto)
  qed
qed

lemma getopt_optarg: "getopt argv os (d\<lparr>optarg := x\<rparr>) = getopt argv os d \<or> argv = []"
  by (auto simp: getopt_def Let_def)

lemma getopt_optopt:
  assumes "getopt argv ''n:p:h'' d = (r, a, e, ev)"
  shows "getopt argv ''n:p:h'' (d\<lparr>optopt := y\<rparr>)
           = (r, a, e\<lparr>optopt := (if r = Some (CHR ''?'') then optopt e else y)\<rparr>, ev)"
proof (cases "length argv < 1")
  case True
  then show ?thesis using assms by (auto simp: getopt_def)
next
  case False
  note ne = this
  have sw: "d\<lparr>optopt := y, optarg := None\<rparr> = d\<lparr>optarg := None, optopt := y\<rparr>" by simp
  show ?thesis
  proof (cases "nextchar d = []")
    case True
    show ?thesis
    proof (cases "getopt_advance argv (d\<lparr>optarg := None\<rparr>)")
      case (Inl t)
      obtain r1 a1 e1 where t: "t = (r1, a1, e1)" by (cases t) auto
      have q: "r1 \<noteq> Some (CHR ''?'')" using advance_Inl_code[of argv "d\<lparr>optarg := None\<rparr>" r1 a1 e1] Inl t by auto
      have "r = r1 \<and> a = a1 \<and> e = e1 \<and> ev = []"
        using assms ne True Inl t by (simp add: getopt_def)
      then show ?thesis
        using ne True Inl t q advance_optopt[of argv y "d\<lparr>optarg := None\<rparr>"]
        by (simp add: getopt_def sw)
    next
      case (Inr t)
      obtain a1 e1 where t: "t = (a1, e1)" by (cases t) auto
      have s: "getopt_short a1 ''n:p:h'' e1 = (r, a, e, ev)"
        using assms ne True Inr t by (simp add: getopt_def)
      show ?thesis
        using ne True Inr t advance_optopt[of argv y "d\<lparr>optarg := None\<rparr>"] short_optopt[OF s, of y]
        by (simp add: getopt_def sw)
    qed
  next
    case False
    then have s: "getopt_short argv ''n:p:h'' (d\<lparr>optarg := None\<rparr>) = (r, a, e, ev)"
      using assms ne by (simp add: getopt_def)
    show ?thesis using ne False short_optopt[OF s, of y] by (simp add: getopt_def sw)
  qed
qed


lemma getopt_same_cursor:
  assumes sc: "same_cursor d d'" and g: "getopt argv ''n:p:h'' d = (r, a, e, ev)"
  shows "\<exists>e'. getopt argv ''n:p:h'' d' = (r, a, e', ev) \<and> same_cursor e e'
              \<and> (r \<noteq> None \<longrightarrow> optarg e' = optarg e)
              \<and> (r = Some (CHR ''?'') \<longrightarrow> optopt e' = optopt e)"
proof (cases "argv = []")
  case True
  then show ?thesis using sc g by (auto simp: getopt_def)
next
  case False
  have d': "d' = (d\<lparr>optopt := optopt d'\<rparr>)\<lparr>optarg := optarg d'\<rparr>"
    using sc by (cases d; cases d') (simp add: same_cursor_def)
  have "getopt argv ''n:p:h'' d' = getopt argv ''n:p:h'' (d\<lparr>optopt := optopt d'\<rparr>)"
    using getopt_optarg[of argv "''n:p:h''" "optarg d'" "d\<lparr>optopt := optopt d'\<rparr>"] False d'
    by simp
  then have "getopt argv ''n:p:h'' d'
      = (r, a, e\<lparr>optopt := (if r = Some (CHR ''?'') then optopt e else optopt d')\<rparr>, ev)"
    using getopt_optopt[OF g, of "optopt d'"] by simp
  then show ?thesis by (simp add: same_cursor_def)
qed

lemma step_same_run:
  assumes "same_run s s'"
  shows "(case process_options_step conv ec s of
            Inl r \<Rightarrow> (case process_options_step conv ec s' of
                        Inl r' \<Rightarrow> same_scan r r' | Inr x' \<Rightarrow> False)
          | Inr x \<Rightarrow> (case process_options_step conv ec s' of
                        Inl r' \<Rightarrow> False
                      | Inr x' \<Rightarrow> fst x' = fst x \<and> same_run (snd x) (snd x')))"
proof -
  obtain r a e ev where g: "getopt (st_argv s) ''n:p:h'' (st_lib s) = (r, a, e, ev)"
    by (cases "getopt (st_argv s) ''n:p:h'' (st_lib s)") auto
  have sc: "same_cursor (st_lib s) (st_lib s')" and av: "st_argv s' = st_argv s"
    and so: "st_opts s' = st_opts s" and sout: "st_out s' = st_out s"
    using assms by (simp_all add: same_run_def)
  obtain e' where g': "getopt (st_argv s') ''n:p:h'' (st_lib s') = (r, a, e', ev)"
    and ce: "same_cursor e e'" and oa: "r \<noteq> None \<longrightarrow> optarg e' = optarg e"
    and oo: "r = Some (CHR ''?'') \<longrightarrow> optopt e' = optopt e"
    using getopt_same_cursor[OF sc g] av by auto
  show ?thesis
  proof (cases r)
    case None
    then show ?thesis using g g' ce so sout
      by (simp add: process_options_step_def same_scan_def same_run_def)
  next
    case (Some c)
    then have oa': "optarg e' = optarg e" using oa by simp
    show ?thesis using Some g g' ce so sout oa' oo
      by (simp add: process_options_step_def same_scan_def same_run_def split_beta Let_def
          report_invalid_options_def)
  qed
qed

lemma loop_same_run:
  "same_run s s' \<Longrightarrow>
     same_scan (process_options_loop conv ec s) (process_options_loop conv ec s')"
proof (induction conv ec s arbitrary: s' rule: process_options_loop.induct)
  case (1 conv ec s)
  show ?case
  proof (cases "process_options_step conv ec s")
    case (Inl r)
    then obtain r' where r': "process_options_step conv ec s' = Inl r'" and rr: "same_scan r r'"
      using step_same_run[OF 1(2), of conv ec] by (auto split: sum.splits)
    show ?thesis using loop_stop[OF Inl] loop_stop[OF r'] rr by simp
  next
    case (Inr x)
    obtain c t where x: "x = (c, t)" by (cases x) auto
    obtain t' where st': "process_options_step conv ec s' = Inr (c, t')" and tt: "same_run t t'"
      using step_same_run[OF 1(2), of conv ec] Inr x by (auto split: sum.splits)
    have st: "process_options_step conv ec s = Inr (c, t)" using Inr x by simp
    show ?thesis
      using 1(1)[OF Inr x[symmetric] tt] loop_continue[OF st] loop_continue[OF st'] by simp
  qed
qed

text \<open>What the modelled parser accepts: decimal text whose value fits 32 bits is
  converted to that value; text beyond the range is refused.\<close>

lemma str_to_int32_decimal:
  assumes "decimal_value s = Some i" and "- (2 ^ 31) \<le> i" and "i < 2 ^ 31"
  shows "str_to_int32 s = (E_SUCCESS, word_of_int i)" and "sint (word_of_int i :: 32 word) = i"
proof -
  show "str_to_int32 s = (E_SUCCESS, word_of_int i)"
    using assms by (simp add: str_to_int32_def)
  show "sint (word_of_int i :: 32 word) = i"
    using assms(2,3) by (simp add: signed_of_int signed_take_bit_int_eq_self)
qed

lemma str_to_int32_overflow:
  "str_to_int32 ''2147483648'' = (E_FAILURE, 0)"
  by (simp add: str_to_int32_def decimal_value_def digit_of_def)

section \<open>Properties\<close>

subsection \<open>The option handlers\<close>

text \<open>Claim C5. For every text that the numeric parser converts to a 32-bit integer
  \<open>v\<close>, given as the value of \<^verbatim>\<open>-n\<close> on a record in which \<^verbatim>\<open>-n\<close> is not yet set:
  if \<open>v \<ge> 2\<close> the handler succeeds, sets \<^verbatim>\<open>n_flag\<close> and stores exactly \<open>v\<close>; if
  \<open>v < 2\<close> it fails with the out-of-range diagnostic and stores nothing.\<close>

theorem process_n_option_range:
  assumes "conv s = (E_SUCCESS, v)" and "\<not> n_flag options_p"
  shows "(MIN_NUM_THREADS \<le> sint v \<longrightarrow>
            process_n_option conv (Some s) options_p
              = (E_SUCCESS, options_p\<lparr>n_flag := True, n_value := v\<rparr>, []))
       \<and> (sint v < MIN_NUM_THREADS \<longrightarrow>
            process_n_option conv (Some s) options_p
              = (E_FAILURE, options_p,
                 [PrintError ''process_options(): Number of threads must be 2 or more.'']))"
  using assms by (simp add: process_n_option_def)

theorem process_n_option_range_witness:
  "str_to_int32 ''4'' = (E_SUCCESS, 4) \<and> str_to_int32 ''-5'' = (E_SUCCESS, - 5)
   \<and> \<not> n_flag options_zero
   \<and> process_n_option str_to_int32 (Some ''4'') options_zero
       = (E_SUCCESS, options_zero\<lparr>n_flag := True, n_value := 4\<rparr>, [])
   \<and> process_n_option str_to_int32 (Some ''-5'') options_zero
       = (E_FAILURE, options_zero,
          [PrintError ''process_options(): Number of threads must be 2 or more.''])"
proof -
  have c: "str_to_int32 ''4'' = (E_SUCCESS, 4)"
    by (simp add: str_to_int32_def decimal_value_def digit_of_def)
  have c': "str_to_int32 ''-5'' = (E_SUCCESS, - 5)"
    by (simp add: str_to_int32_def decimal_value_def digit_of_def)
  have f: "\<not> n_flag options_zero" by (simp add: options_zero_def)
  have s4: "sint (4 :: 32 word) = 4" by simp
  have s5: "sint (- 5 :: 32 word) = - 5" by simp
  show ?thesis
    using process_n_option_range[of str_to_int32 "''4''" 4 options_zero]
      process_n_option_range[of str_to_int32 "''-5''" "- 5" options_zero] c c' f s4 s5
    by (simp add: MIN_NUM_THREADS_def)
qed

text \<open>Claim C6. For every text that the numeric parser converts to a 32-bit integer
  \<open>v\<close>, given as the value of \<^verbatim>\<open>-p\<close> on a record in which \<^verbatim>\<open>-p\<close> is not yet set:
  if \<open>v\<close> lies in \<open>[1025, 65535]\<close> the handler succeeds and stores the text itself,
  unchanged; if \<open>v\<close> lies outside it fails with the out-of-range diagnostic and stores
  nothing.\<close>

theorem process_p_option_range:
  assumes "conv s = (E_SUCCESS, v)" and "\<not> p_flag options_p"
  shows "(MIN_PORT_VALUE \<le> sint v \<and> sint v \<le> MAX_PORT_VALUE \<longrightarrow>
            process_p_option conv (Some s) options_p
              = (E_SUCCESS, options_p\<lparr>p_flag := True, p_value := Some s\<rparr>, []))
       \<and> (sint v < MIN_PORT_VALUE \<or> MAX_PORT_VALUE < sint v \<longrightarrow>
            process_p_option conv (Some s) options_p
              = (E_FAILURE, options_p,
                 [PrintError ''process_p_option(): Port number out of range.'']))"
  using assms by (auto simp add: process_p_option_def strnlen_def)

theorem process_p_option_range_witness:
  "str_to_int32 ''8080'' = (E_SUCCESS, 8080) \<and> str_to_int32 ''80'' = (E_SUCCESS, 80)
   \<and> \<not> p_flag options_zero
   \<and> process_p_option str_to_int32 (Some ''8080'') options_zero
       = (E_SUCCESS, options_zero\<lparr>p_flag := True, p_value := Some ''8080''\<rparr>, [])
   \<and> process_p_option str_to_int32 (Some ''80'') options_zero
       = (E_FAILURE, options_zero,
          [PrintError ''process_p_option(): Port number out of range.''])"
proof -
  have c: "str_to_int32 ''8080'' = (E_SUCCESS, 8080)"
    by (simp add: str_to_int32_def decimal_value_def digit_of_def)
  have c': "str_to_int32 ''80'' = (E_SUCCESS, 80)"
    by (simp add: str_to_int32_def decimal_value_def digit_of_def)
  have f: "\<not> p_flag options_zero" by (simp add: options_zero_def)
  have s1: "sint (8080 :: 32 word) = 8080" by simp
  have s2: "sint (80 :: 32 word) = 80" by simp
  show ?thesis
    using process_p_option_range[of str_to_int32 "''8080''" 8080 options_zero]
      process_p_option_range[of str_to_int32 "''80''" 80 options_zero] c c' f s1 s2
    by (simp add: MIN_PORT_VALUE_def MAX_PORT_VALUE_def)
qed

text \<open>Claim C10. \<^verbatim>\<open>strnlen(s, MAX_PORT_SIZE)\<close> never exceeds \<^verbatim>\<open>MAX_PORT_SIZE\<close>, so the
  test \<^verbatim>\<open>MAX_PORT_SIZE < optarg_length\<close> is false for every text and
  \<^verbatim>\<open>process_p_option\<close> never reports that the port string is too long, whatever the
  parser, the argument and the record.\<close>

theorem port_length_check_unreachable:
  "strnlen s MAX_PORT_SIZE \<le> MAX_PORT_SIZE \<and>
   PrintError ''process_p_option(): Port string is too long.''
     \<notin> set (snd (snd (process_p_option conv arg options_p)))"
  by (simp add: strnlen_def process_p_option_def Let_def split: option.split prod.split)

subsection \<open>Runs of the whole handler\<close>

text \<open>Claim C1. The claim says that \<^verbatim>\<open>-h\<close> anywhere gives the help menu and a
  non-success result. On \<^verbatim>\<open>netcalc -n 4 -h\<close> the code returns \<^verbatim>\<open>E_SUCCESS\<close> and
  prints nothing: the case for \<^verbatim>\<open>'h'\<close> jumps to \<^verbatim>\<open>END\<close> with the \<^verbatim>\<open>exit_code\<close>
  that the handler of \<^verbatim>\<open>-n\<close> has just set.\<close>

theorem help_after_valid_option:
  "process_options str_to_int32 (Some [''netcalc'', ''-n'', ''4'', ''-h''])
     (Some options_zero) (getopt_start PERMUTE)
   = \<lparr>ret = E_SUCCESS, res_argv = Some [''netcalc'', ''-n'', ''4'', ''-h''],
      res_opts = Some (options_zero\<lparr>n_flag := True, n_value := 4\<rparr>),
      res_lib = \<lparr>optind = 4, optarg = None, optopt = CHR ''?'', nextchar = [],
                 first_nonopt = 3, last_nonopt = 3, ordering = PERMUTE\<rparr>,
      res_out = []\<rparr>"
  by code_simp

text \<open>Claim C2. The claim says that a \<^verbatim>\<open>-p\<close> value of more than five characters is
  refused as too long. On \<^verbatim>\<open>netcalc -p 001025\<close> the code succeeds and stores the six
  characters.\<close>

theorem long_port_value_accepted:
  "process_options str_to_int32 (Some [''netcalc'', ''-p'', ''001025''])
     (Some options_zero) (getopt_start PERMUTE)
   = \<lparr>ret = E_SUCCESS, res_argv = Some [''netcalc'', ''-p'', ''001025''],
      res_opts = Some (options_zero\<lparr>p_flag := True, p_value := Some ''001025''\<rparr>),
      res_lib = \<lparr>optind = 3, optarg = None, optopt = CHR ''?'', nextchar = [],
                 first_nonopt = 3, last_nonopt = 3, ordering = PERMUTE\<rparr>,
      res_out = []\<rparr>"
  by code_simp

text \<open>Claim C7. Whenever the scan reaches a state in which getopt delivers \<^verbatim>\<open>n\<close> (or
  \<^verbatim>\<open>p\<close>) while that option is already set in the record, \<^verbatim>\<open>process_options\<close>
  returns \<^verbatim>\<open>E_FAILURE\<close> with the duplicate-option diagnostic and the help menu, whatever
  the new value is, and the record it leaves is the record as it was before the repeated
  option: the earlier value is not overwritten.\<close>

theorem duplicate_option_rejected:
  assumes "argv \<noteq> []"
    and "process_options_iter conv k E_FAILURE
           \<lparr>st_argv = argv, st_opts = opts, st_lib = d0, st_out = []\<rparr> = Some (ec, s)"
    and "getopt (st_argv s) ''n:p:h'' (st_lib s) = (Some c, a, d, ev)"
  shows "(c = CHR ''n'' \<and> n_flag (st_opts s) \<longrightarrow>
            process_options conv (Some argv) (Some opts) d0 =
              \<lparr>ret = E_FAILURE, res_argv = Some a, res_opts = Some (st_opts s), res_lib = d,
               res_out = st_out s @ ev
                 @ [PrintError ''process_options(): '-n' flag already true.'',
                    PrintError ''Unable to process 'n' option.'']
                 @ print_help_menu\<rparr>)
       \<and> (c = CHR ''p'' \<and> p_flag (st_opts s) \<longrightarrow>
            process_options conv (Some argv) (Some opts) d0 =
              \<lparr>ret = E_FAILURE, res_argv = Some a, res_opts = Some (st_opts s), res_lib = d,
               res_out = st_out s @ ev
                 @ [PrintError ''process_p_option(): '-p' flag already true.'',
                    PrintError ''Unable to process 'p' option.'']
                 @ print_help_menu\<rparr>)"
proof (intro conjI impI)
  assume h: "c = CHR ''n'' \<and> n_flag (st_opts s)"
  then obtain t where t: "optarg d = Some t"
    using getopt_has_arg[OF assms(3)] by auto
  have r: "process_n_option conv (optarg d) (st_opts s) =
             (E_FAILURE, st_opts s, [PrintError ''process_options(): '-n' flag already true.''])"
    using h t by (simp add: process_n_option_def)
  have g: "getopt (st_argv s) ''n:p:h'' (st_lib s) = (Some (CHR ''n''), a, d, ev)"
    using assms(3) h by simp
  have f: "fst (process_n_option conv (optarg d) (st_opts s)) \<noteq> E_SUCCESS"
    by (simp add: r E_FAILURE_def E_SUCCESS_def)
  show "process_options conv (Some argv) (Some opts) d0 =
              \<lparr>ret = E_FAILURE, res_argv = Some a, res_opts = Some (st_opts s), res_lib = d,
               res_out = st_out s @ ev
                 @ [PrintError ''process_options(): '-n' flag already true.'',
                    PrintError ''Unable to process 'n' option.'']
                 @ print_help_menu\<rparr>"
    using process_options_stopped[OF assms(1) assms(2) step_stop_n[OF g f, of ec]]
    by (simp add: r process_options_end_def)
next
  assume h: "c = CHR ''p'' \<and> p_flag (st_opts s)"
  then obtain t where t: "optarg d = Some t"
    using getopt_has_arg[OF assms(3)] by auto
  have r: "process_p_option conv (optarg d) (st_opts s) =
             (E_FAILURE, st_opts s, [PrintError ''process_p_option(): '-p' flag already true.''])"
    using h t by (simp add: process_p_option_def)
  have g: "getopt (st_argv s) ''n:p:h'' (st_lib s) = (Some (CHR ''p''), a, d, ev)"
    using assms(3) h by simp
  have f: "fst (process_p_option conv (optarg d) (st_opts s)) \<noteq> E_SUCCESS"
    by (simp add: r E_FAILURE_def E_SUCCESS_def)
  show "process_options conv (Some argv) (Some opts) d0 =
              \<lparr>ret = E_FAILURE, res_argv = Some a, res_opts = Some (st_opts s), res_lib = d,
               res_out = st_out s @ ev
                 @ [PrintError ''process_p_option(): '-p' flag already true.'',
                    PrintError ''Unable to process 'p' option.'']
                 @ print_help_menu\<rparr>"
    using process_options_stopped[OF assms(1) assms(2) step_stop_p[OF g f, of ec]]
    by (simp add: r process_options_end_def)
qed

theorem duplicate_option_rejected_witness:
  "[''netcalc'', ''-n'', ''4'', ''-n'', ''8''] \<noteq> []
   \<and> process_options_iter str_to_int32 1 E_FAILURE
        \<lparr>st_argv = [''netcalc'', ''-n'', ''4'', ''-n'', ''8''], st_opts = options_zero,
         st_lib = getopt_start PERMUTE, st_out = []\<rparr>
      = Some (E_SUCCESS,
          \<lparr>st_argv = [''netcalc'', ''-n'', ''4'', ''-n'', ''8''],
           st_opts = options_zero\<lparr>n_flag := True, n_value := 4\<rparr>,
           st_lib = \<lparr>optind = 3, optarg = Some ''4'', optopt = CHR ''?'', nextchar = [],
                      first_nonopt = 1, last_nonopt = 1, ordering = PERMUTE\<rparr>,
           st_out = []\<rparr>)
   \<and> getopt [''netcalc'', ''-n'', ''4'', ''-n'', ''8''] ''n:p:h''
        \<lparr>optind = 3, optarg = Some ''4'', optopt = CHR ''?'', nextchar = [],
         first_nonopt = 1, last_nonopt = 1, ordering = PERMUTE\<rparr>
      = (Some (CHR ''n''), [''netcalc'', ''-n'', ''4'', ''-n'', ''8''],
         \<lparr>optind = 5, optarg = Some ''8'', optopt = CHR ''?'', nextchar = [],
          first_nonopt = 3, last_nonopt = 3, ordering = PERMUTE\<rparr>, [])
   \<and> process_options str_to_int32 (Some [''netcalc'', ''-n'', ''4'', ''-n'', ''8''])
        (Some options_zero) (getopt_start PERMUTE)
      = \<lparr>ret = E_FAILURE, res_argv = Some [''netcalc'', ''-n'', ''4'', ''-n'', ''8''],
         res_opts = Some (options_zero\<lparr>n_flag := True, n_value := 4\<rparr>),
         res_lib = \<lparr>optind = 5, optarg = Some ''8'', optopt = CHR ''?'', nextchar = [],
                    first_nonopt = 3, last_nonopt = 3, ordering = PERMUTE\<rparr>,
         res_out = [PrintError ''process_options(): '-n' flag already true.'',
                    PrintError ''Unable to process 'n' option.''] @ print_help_menu\<rparr>"
proof -
  have ne: "[''netcalc'', ''-n'', ''4'', ''-n'', ''8''] \<noteq> []" by simp
  have it: "process_options_iter str_to_int32 1 E_FAILURE
        \<lparr>st_argv = [''netcalc'', ''-n'', ''4'', ''-n'', ''8''], st_opts = options_zero,
         st_lib = getopt_start PERMUTE, st_out = []\<rparr>
      = Some (E_SUCCESS,
          \<lparr>st_argv = [''netcalc'', ''-n'', ''4'', ''-n'', ''8''],
           st_opts = options_zero\<lparr>n_flag := True, n_value := 4\<rparr>,
           st_lib = \<lparr>optind = 3, optarg = Some ''4'', optopt = CHR ''?'', nextchar = [],
                      first_nonopt = 1, last_nonopt = 1, ordering = PERMUTE\<rparr>,
           st_out = []\<rparr>)"
    by code_simp
  have g: "getopt [''netcalc'', ''-n'', ''4'', ''-n'', ''8''] ''n:p:h''
        \<lparr>optind = 3, optarg = Some ''4'', optopt = CHR ''?'', nextchar = [],
         first_nonopt = 1, last_nonopt = 1, ordering = PERMUTE\<rparr>
      = (Some (CHR ''n''), [''netcalc'', ''-n'', ''4'', ''-n'', ''8''],
         \<lparr>optind = 5, optarg = Some ''8'', optopt = CHR ''?'', nextchar = [],
          first_nonopt = 3, last_nonopt = 3, ordering = PERMUTE\<rparr>, [])"
    by code_simp
  show ?thesis
    using duplicate_option_rejected[of "[''netcalc'', ''-n'', ''4'', ''-n'', ''8'']"
        str_to_int32 1 options_zero "getopt_start PERMUTE" E_SUCCESS
        "\<lparr>st_argv = [''netcalc'', ''-n'', ''4'', ''-n'', ''8''],
           st_opts = options_zero\<lparr>n_flag := True, n_value := 4\<rparr>,
           st_lib = \<lparr>optind = 3, optarg = Some ''4'', optopt = CHR ''?'', nextchar = [],
                      first_nonopt = 1, last_nonopt = 1, ordering = PERMUTE\<rparr>,
           st_out = []\<rparr>"
        "CHR ''n''" "[''netcalc'', ''-n'', ''4'', ''-n'', ''8'']"
        "\<lparr>optind = 5, optarg = Some ''8'', optopt = CHR ''?'', nextchar = [],
          first_nonopt = 3, last_nonopt = 3, ordering = PERMUTE\<rparr>" "[]"]
      ne it g
    by simp
qed

text \<open>Claim C8. Whenever the flag scan runs to its end (getopt returns \<open>-1\<close>) and leaves
  \<^verbatim>\<open>optind\<close> below \<^verbatim>\<open>argc\<close>, \<^verbatim>\<open>process_options\<close> returns \<^verbatim>\<open>E_FAILURE\<close>, and the
  diagnostic written after \<^verbatim>\<open>Invalid arguments encountered:\<close> lists every element of
  the vector from \<^verbatim>\<open>optind\<close> on, each followed by a blank, before the help menu.\<close>

theorem extra_arguments_rejected:
  assumes "argv \<noteq> []"
    and "process_options_loop conv E_FAILURE
           \<lparr>st_argv = argv, st_opts = opts, st_lib = d0, st_out = []\<rparr> = Scanned s"
    and "optind (st_lib s) < length (st_argv s)"
  shows "process_options conv (Some argv) (Some opts) d0 =
           \<lparr>ret = E_FAILURE, res_argv = Some (st_argv s), res_opts = Some (st_opts s),
            res_lib = st_lib s,
            res_out = st_out s @ [Stderr ''Invalid arguments encountered: '']
              @ map (\<lambda>t. Stderr (t @ '' '')) (drop (optind (st_lib s)) (st_argv s))
              @ [Stderr nl, PrintError ''Invalid arguments passed.'']
              @ print_help_menu\<rparr>"
proof -
  have ne: "st_argv s \<noteq> []" using assms(3) by auto
  have r: "report_extra_arguments (optind (st_lib s)) (st_argv s) =
             (E_FAILURE, [Stderr ''Invalid arguments encountered: '']
                @ map (\<lambda>t. Stderr (t @ '' '')) (drop (optind (st_lib s)) (st_argv s))
                @ [Stderr nl])"
    using ne assms(3) by (simp add: report_extra_arguments_def report_extra_loop_eq)
  have ne': "E_SUCCESS \<noteq> E_FAILURE" by (simp add: E_FAILURE_def E_SUCCESS_def)
  have "process_options conv (Some argv) (Some opts) d0 =
          process_options_end E_FAILURE
            (s\<lparr>st_out := st_out s @ ([Stderr ''Invalid arguments encountered: '']
                @ map (\<lambda>t. Stderr (t @ '' '')) (drop (optind (st_lib s)) (st_argv s))
                @ [Stderr nl]) @ [PrintError ''Invalid arguments passed.'']\<rparr>)"
    using ne' by (simp add: process_options_unfold[OF assms(1)] assms(2) r)
  then show ?thesis by (simp add: process_options_end_def)
qed

theorem extra_arguments_rejected_witness:
  "[''netcalc'', ''-p'', ''8080'', ''extra''] \<noteq> []
   \<and> process_options_loop str_to_int32 E_FAILURE
        \<lparr>st_argv = [''netcalc'', ''-p'', ''8080'', ''extra''], st_opts = options_zero,
         st_lib = getopt_start PERMUTE, st_out = []\<rparr>
      = Scanned
          \<lparr>st_argv = [''netcalc'', ''-p'', ''8080'', ''extra''],
           st_opts = options_zero\<lparr>p_flag := True, p_value := Some ''8080''\<rparr>,
           st_lib = \<lparr>optind = 3, optarg = None, optopt = CHR ''?'', nextchar = [],
                      first_nonopt = 3, last_nonopt = 4, ordering = PERMUTE\<rparr>,
           st_out = []\<rparr>
   \<and> (3::nat) < length [''netcalc'', ''-p'', ''8080'', ''extra'']
   \<and> process_options str_to_int32 (Some [''netcalc'', ''-p'', ''8080'', ''extra''])
        (Some options_zero) (getopt_start PERMUTE)
      = \<lparr>ret = E_FAILURE, res_argv = Some [''netcalc'', ''-p'', ''8080'', ''extra''],
         res_opts = Some (options_zero\<lparr>p_flag := True, p_value := Some ''8080''\<rparr>),
         res_lib = \<lparr>optind = 3, optarg = None, optopt = CHR ''?'', nextchar = [],
                    first_nonopt = 3, last_nonopt = 4, ordering = PERMUTE\<rparr>,
         res_out = [Stderr ''Invalid arguments encountered: '', Stderr ''extra '',
                    Stderr nl, PrintError ''Invalid arguments passed.''] @ print_help_menu\<rparr>"
proof -
  have ne: "[''netcalc'', ''-p'', ''8080'', ''extra''] \<noteq> []" by simp
  have l: "process_options_loop str_to_int32 E_FAILURE
        \<lparr>st_argv = [''netcalc'', ''-p'', ''8080'', ''extra''], st_opts = options_zero,
         st_lib = getopt_start PERMUTE, st_out = []\<rparr>
      = Scanned
          \<lparr>st_argv = [''netcalc'', ''-p'', ''8080'', ''extra''],
           st_opts = options_zero\<lparr>p_flag := True, p_value := Some ''8080''\<rparr>,
           st_lib = \<lparr>optind = 3, optarg = None, optopt = CHR ''?'', nextchar = [],
                      first_nonopt = 3, last_nonopt = 4, ordering = PERMUTE\<rparr>,
           st_out = []\<rparr>"
    by code_simp
  show ?thesis
    using extra_arguments_rejected[OF ne l] ne l by simp
qed

text \<open>Claim C9. Whenever the scan reaches a token that is the help request, an unknown
  or incomplete option, or an \<^verbatim>\<open>n\<close> or \<^verbatim>\<open>p\<close> whose handler does not succeed,
  \<^verbatim>\<open>process_options\<close> ends there: getopt is left in the state of the call that
  delivered this token (it is not called again, so no later token is read), the vector
  is as that call left it, and the record is the record as it was before this token (no
  further option is stored).\<close>

theorem scan_stops_at_first_failure:
  assumes "argv \<noteq> []"
    and "process_options_iter conv k E_FAILURE
           \<lparr>st_argv = argv, st_opts = opts, st_lib = d0, st_out = []\<rparr> = Some (ec, s)"
    and "getopt (st_argv s) ''n:p:h'' (st_lib s) = (Some c, a, d, ev)"
    and "c = CHR ''n'' \<Longrightarrow> fst (process_n_option conv (optarg d) (st_opts s)) \<noteq> E_SUCCESS"
    and "c = CHR ''p'' \<Longrightarrow> fst (process_p_option conv (optarg d) (st_opts s)) \<noteq> E_SUCCESS"
  shows "res_lib (process_options conv (Some argv) (Some opts) d0) = d
       \<and> res_argv (process_options conv (Some argv) (Some opts) d0) = Some a
       \<and> res_opts (process_options conv (Some argv) (Some opts) d0) = Some (st_opts s)"
proof -
  consider (n) "c = CHR ''n''" | (p) "c = CHR ''p''" | (other) "c \<noteq> CHR ''n'' \<and> c \<noteq> CHR ''p''"
    by blast
  then show ?thesis
  proof cases
    case n
    have g: "getopt (st_argv s) ''n:p:h'' (st_lib s) = (Some (CHR ''n''), a, d, ev)"
      using assms(3) n by simp
    show ?thesis
      using process_options_stopped[OF assms(1) assms(2) step_stop_n[OF g assms(4)[OF n], of ec]]
      by (simp add: process_options_end_def)
  next
    case p
    have g: "getopt (st_argv s) ''n:p:h'' (st_lib s) = (Some (CHR ''p''), a, d, ev)"
      using assms(3) p by simp
    show ?thesis
      using process_options_stopped[OF assms(1) assms(2) step_stop_p[OF g assms(5)[OF p], of ec]]
      by (simp add: process_options_end_def)
  next
    case other
    then have o1: "c \<noteq> CHR ''n''" and o2: "c \<noteq> CHR ''p''" by simp_all
    show ?thesis
      using process_options_stopped[OF assms(1) assms(2)
          step_stop_other[OF assms(3) o1 o2, of conv ec]]
      by (simp add: process_options_end_def)
  qed
qed


theorem scan_stops_at_first_failure_witness:
  "[''netcalc'', ''-n'', ''4'', ''-p'', ''80'', ''-n'', ''9''] \<noteq> []
   \<and> process_options_iter str_to_int32 1 E_FAILURE
        \<lparr>st_argv = [''netcalc'', ''-n'', ''4'', ''-p'', ''80'', ''-n'', ''9''], st_opts = options_zero,
         st_lib = getopt_start PERMUTE, st_out = []\<rparr>
      = Some (E_SUCCESS,
          \<lparr>st_argv = [''netcalc'', ''-n'', ''4'', ''-p'', ''80'', ''-n'', ''9''],
           st_opts = options_zero\<lparr>n_flag := True, n_value := 4\<rparr>,
           st_lib = \<lparr>optind = 3, optarg = Some ''4'', optopt = CHR ''?'', nextchar = [],
                      first_nonopt = 1, last_nonopt = 1, ordering = PERMUTE\<rparr>,
           st_out = []\<rparr>)
   \<and> getopt [''netcalc'', ''-n'', ''4'', ''-p'', ''80'', ''-n'', ''9''] ''n:p:h''
        \<lparr>optind = 3, optarg = Some ''4'', optopt = CHR ''?'', nextchar = [],
         first_nonopt = 1, last_nonopt = 1, ordering = PERMUTE\<rparr>
      = (Some (CHR ''p''), [''netcalc'', ''-n'', ''4'', ''-p'', ''80'', ''-n'', ''9''],
         \<lparr>optind = 5, optarg = Some ''80'', optopt = CHR ''?'', nextchar = [],
          first_nonopt = 3, last_nonopt = 3, ordering = PERMUTE\<rparr>, [])
   \<and> fst (process_p_option str_to_int32 (Some ''80'')
             (options_zero\<lparr>n_flag := True, n_value := 4\<rparr>)) \<noteq> E_SUCCESS
   \<and> res_lib (process_options str_to_int32 (Some [''netcalc'', ''-n'', ''4'', ''-p'', ''80'', ''-n'', ''9''])
        (Some options_zero) (getopt_start PERMUTE))
      = \<lparr>optind = 5, optarg = Some ''80'', optopt = CHR ''?'', nextchar = [],
          first_nonopt = 3, last_nonopt = 3, ordering = PERMUTE\<rparr>
   \<and> res_opts (process_options str_to_int32 (Some [''netcalc'', ''-n'', ''4'', ''-p'', ''80'', ''-n'', ''9''])
        (Some options_zero) (getopt_start PERMUTE))
      = Some (options_zero\<lparr>n_flag := True, n_value := 4\<rparr>)"
proof -
  have ne: "[''netcalc'', ''-n'', ''4'', ''-p'', ''80'', ''-n'', ''9''] \<noteq> []" by simp
  have it: "process_options_iter str_to_int32 1 E_FAILURE
        \<lparr>st_argv = [''netcalc'', ''-n'', ''4'', ''-p'', ''80'', ''-n'', ''9''], st_opts = options_zero,
         st_lib = getopt_start PERMUTE, st_out = []\<rparr>
      = Some (E_SUCCESS,
          \<lparr>st_argv = [''netcalc'', ''-n'', ''4'', ''-p'', ''80'', ''-n'', ''9''],
           st_opts = options_zero\<lparr>n_flag := True, n_value := 4\<rparr>,
           st_lib = \<lparr>optind = 3, optarg = Some ''4'', optopt = CHR ''?'', nextchar = [],
                      first_nonopt = 1, last_nonopt = 1, ordering = PERMUTE\<rparr>,
           st_out = []\<rparr>)"
    by code_simp
  have g: "getopt (st_argv \<lparr>st_argv = [''netcalc'', ''-n'', ''4'', ''-p'', ''80'', ''-n'', ''9''],
           st_opts = options_zero\<lparr>n_flag := True, n_value := 4\<rparr>,
           st_lib = \<lparr>optind = 3, optarg = Some ''4'', optopt = CHR ''?'', nextchar = [],
                      first_nonopt = 1, last_nonopt = 1, ordering = PERMUTE\<rparr>,
           st_out = []\<rparr>) ''n:p:h''
             (st_lib \<lparr>st_argv = [''netcalc'', ''-n'', ''4'', ''-p'', ''80'', ''-n'', ''9''],
           st_opts = options_zero\<lparr>n_flag := True, n_value := 4\<rparr>,
           st_lib = \<lparr>optind = 3, optarg = Some ''4'', optopt = CHR ''?'', nextchar = [],
                      first_nonopt = 1, last_nonopt = 1, ordering = PERMUTE\<rparr>,
           st_out = []\<rparr>)
           = (Some (CHR ''p''), [''netcalc'', ''-n'', ''4'', ''-p'', ''80'', ''-n'', ''9''],
         \<lparr>optind = 5, optarg = Some ''80'', optopt = CHR ''?'', nextchar = [],
          first_nonopt = 3, last_nonopt = 3, ordering = PERMUTE\<rparr>, [])"
    by code_simp
  have h: "fst (process_p_option str_to_int32 (Some ''80'')
             (options_zero\<lparr>n_flag := True, n_value := 4\<rparr>)) \<noteq> E_SUCCESS"
    by code_simp
  have hp: "CHR ''p'' = CHR ''p'' \<Longrightarrow>
      fst (process_p_option str_to_int32 (optarg \<lparr>optind = 5, optarg = Some ''80'', optopt = CHR ''?'', nextchar = [],
          first_nonopt = 3, last_nonopt = 3, ordering = PERMUTE\<rparr>)
            (st_opts \<lparr>st_argv = [''netcalc'', ''-n'', ''4'', ''-p'', ''80'', ''-n'', ''9''],
           st_opts = options_zero\<lparr>n_flag := True, n_value := 4\<rparr>,
           st_lib = \<lparr>optind = 3, optarg = Some ''4'', optopt = CHR ''?'', nextchar = [],
                      first_nonopt = 1, last_nonopt = 1, ordering = PERMUTE\<rparr>,
           st_out = []\<rparr>)) \<noteq> E_SUCCESS"
    using h by simp
  have hn: "CHR ''p'' = CHR ''n'' \<Longrightarrow>
      fst (process_n_option str_to_int32 (optarg \<lparr>optind = 5, optarg = Some ''80'', optopt = CHR ''?'', nextchar = [],
          first_nonopt = 3, last_nonopt = 3, ordering = PERMUTE\<rparr>)
            (st_opts \<lparr>st_argv = [''netcalc'', ''-n'', ''4'', ''-p'', ''80'', ''-n'', ''9''],
           st_opts = options_zero\<lparr>n_flag := True, n_value := 4\<rparr>,
           st_lib = \<lparr>optind = 3, optarg = Some ''4'', optopt = CHR ''?'', nextchar = [],
                      first_nonopt = 1, last_nonopt = 1, ordering = PERMUTE\<rparr>,
           st_out = []\<rparr>)) \<noteq> E_SUCCESS"
    by simp
  have g': "getopt [''netcalc'', ''-n'', ''4'', ''-p'', ''80'', ''-n'', ''9''] ''n:p:h''
        \<lparr>optind = 3, optarg = Some ''4'', optopt = CHR ''?'', nextchar = [],
         first_nonopt = 1, last_nonopt = 1, ordering = PERMUTE\<rparr>
      = (Some (CHR ''p''), [''netcalc'', ''-n'', ''4'', ''-p'', ''80'', ''-n'', ''9''],
         \<lparr>optind = 5, optarg = Some ''80'', optopt = CHR ''?'', nextchar = [],
          first_nonopt = 3, last_nonopt = 3, ordering = PERMUTE\<rparr>, [])"
    using g by simp
  show ?thesis
    using scan_stops_at_first_failure[OF ne it g hn hp] ne it g' h by simp
qed

text \<open>Claim C3, as stated, fails: getopt keeps its cursor between calls and
  \<^verbatim>\<open>process_options\<close> never resets it. On \<^verbatim>\<open>netcalc -n 4 -p 80\<close> the first call
  fails at \<^verbatim>\<open>-p\<close> with \<^verbatim>\<open>-n\<close> stored; a second call on the same vector with a fresh
  record starts behind the last token, reads nothing, returns \<^verbatim>\<open>E_SUCCESS\<close> and leaves
  the record empty.\<close>

theorem second_invocation_differs:
  "ret (process_options str_to_int32 (Some [''netcalc'', ''-n'', ''4'', ''-p'', ''80''])
          (Some options_zero) 
          (res_lib (process_options str_to_int32 (Some [''netcalc'', ''-n'', ''4'', ''-p'', ''80''])
            (Some options_zero) (getopt_start PERMUTE))))
     \<noteq> ret (process_options str_to_int32 (Some [''netcalc'', ''-n'', ''4'', ''-p'', ''80''])
          (Some options_zero) (getopt_start PERMUTE))
   \<and> res_opts (process_options str_to_int32 (Some [''netcalc'', ''-n'', ''4'', ''-p'', ''80''])
          (Some options_zero) 
          (res_lib (process_options str_to_int32 (Some [''netcalc'', ''-n'', ''4'', ''-p'', ''80''])
            (Some options_zero) (getopt_start PERMUTE))))
     \<noteq> res_opts (process_options str_to_int32 (Some [''netcalc'', ''-n'', ''4'', ''-p'', ''80''])
          (Some options_zero) (getopt_start PERMUTE))"
  by code_simp

text \<open>Claim C3, amended. The outcome of \<^verbatim>\<open>process_options\<close> (result, record, vector,
  output) is determined by the argument vector, the record passed in and the cursor of
  getopt at entry (\<^verbatim>\<open>optind\<close>, the position inside a flag cluster, the bounds of the
  skipped non-options, the ordering mode): two calls that start from the same cursor
  agree field for field, whatever \<^verbatim>\<open>optarg\<close> and \<^verbatim>\<open>optopt\<close> an earlier call left
  behind, and they leave the same cursor.\<close>

theorem outcome_depends_on_cursor_only:
  assumes "same_cursor d d'"
  shows "ret (process_options conv argv options_p d') = ret (process_options conv argv options_p d)
       \<and> res_opts (process_options conv argv options_p d')
           = res_opts (process_options conv argv options_p d)
       \<and> res_argv (process_options conv argv options_p d')
           = res_argv (process_options conv argv options_p d)
       \<and> res_out (process_options conv argv options_p d')
           = res_out (process_options conv argv options_p d)
       \<and> same_cursor (res_lib (process_options conv argv options_p d))
                      (res_lib (process_options conv argv options_p d'))"
proof (cases "argv = None \<or> argv = Some [] \<or> options_p = None")
  case True
  then show ?thesis using assms by (simp add: process_options_def)
next
  case False
  then obtain av opts where a: "argv = Some av" "av \<noteq> []" "options_p = Some opts" by auto
  define L where "L = process_options_loop conv E_FAILURE
                         \<lparr>st_argv = av, st_opts = opts, st_lib = d, st_out = []\<rparr>"
  define L' where "L' = process_options_loop conv E_FAILURE
                          \<lparr>st_argv = av, st_opts = opts, st_lib = d', st_out = []\<rparr>"
  have "same_run \<lparr>st_argv = av, st_opts = opts, st_lib = d, st_out = []\<rparr>
                 \<lparr>st_argv = av, st_opts = opts, st_lib = d', st_out = []\<rparr>"
    using assms by (simp add: same_run_def)
  then have ss: "same_scan L L'" unfolding L_def L'_def by (rule loop_same_run)
  have u: "process_options conv argv options_p d = process_options_tail L"
    and u': "process_options conv argv options_p d' = process_options_tail L'"
    by (simp_all add: a process_options_unfold process_options_tail_def L_def L'_def)
  show ?thesis
  proof (cases L)
    case (Stopped c t)
    then obtain t' where "L' = Stopped c t'" and "same_run t t'"
      using ss by (cases L') (simp_all add: same_scan_def)
    then show ?thesis using Stopped
      by (simp add: u u' process_options_tail_def process_options_end_def same_run_def)
  next
    case (Scanned t)
    then obtain t' where "L' = Scanned t'" and "same_run t t'"
      using ss by (cases L') (simp_all add: same_scan_def)
    then show ?thesis using Scanned
      by (simp add: u u' process_options_tail_def process_options_end_def same_run_def
          same_cursor_def split_beta)
  qed
qed

theorem outcome_depends_on_cursor_only_witness:
  "same_cursor (getopt_start PERMUTE)
     ((getopt_start PERMUTE)\<lparr>optarg := Some ''80'', optopt := CHR ''x''\<rparr>)
   \<and> ret (process_options str_to_int32 (Some [''netcalc'', ''-n'', ''4'']) (Some options_zero)
            ((getopt_start PERMUTE)\<lparr>optarg := Some ''80'', optopt := CHR ''x''\<rparr>))
      = ret (process_options str_to_int32 (Some [''netcalc'', ''-n'', ''4'']) (Some options_zero)
            (getopt_start PERMUTE))"
proof -
  have sc: "same_cursor (getopt_start PERMUTE)
     ((getopt_start PERMUTE)\<lparr>optarg := Some ''80'', optopt := CHR ''x''\<rparr>)"
    by (simp add: same_cursor_def getopt_start_def)
  show ?thesis using outcome_depends_on_cursor_only[OF sc] sc by simp
qed

text \<open>Claim C4, as stated, fails: on \<^verbatim>\<open>netcalc -n 4 -p 80\<close> the call returns
  \<^verbatim>\<open>E_FAILURE\<close> and the caller's record has \<^verbatim>\<open>-n\<close> set, which it had not before.\<close>

theorem failure_leaves_record_changed:
  "ret (process_options str_to_int32 (Some [''netcalc'', ''-n'', ''4'', ''-p'', ''80''])
          (Some options_zero) (getopt_start PERMUTE)) = E_FAILURE
   \<and> res_opts (process_options str_to_int32 (Some [''netcalc'', ''-n'', ''4'', ''-p'', ''80''])
          (Some options_zero) (getopt_start PERMUTE))
       = Some (options_zero\<lparr>n_flag := True, n_value := 4\<rparr>)
   \<and> (options_zero\<lparr>n_flag := True, n_value := 4\<rparr>) \<noteq> options_zero"
  by code_simp

text \<open>Claim C4, amended. A handler that does not succeed leaves the record exactly as it
  received it, and in the record that \<^verbatim>\<open>process_options\<close> leaves behind, on failure as
  on success, each option is either exactly as the caller passed it or was unset and is
  now set together with a validated value: no option is ever half written. Options stored
  before a failing token are kept, not rolled back.\<close>

theorem record_holds_only_complete_options:
  "(fst (process_n_option conv arg o1) \<noteq> E_SUCCESS \<longrightarrow>
      fst (snd (process_n_option conv arg o1)) = o1)
   \<and> (fst (process_p_option conv arg o1) \<noteq> E_SUCCESS \<longrightarrow>
      fst (snd (process_p_option conv arg o1)) = o1)
   \<and> (\<exists>opts'. res_opts (process_options conv argv (Some opts) d) = Some opts'
            \<and> no_partial_option conv opts opts')"
proof (intro conjI impI)
  show "fst (process_n_option conv arg o1) \<noteq> E_SUCCESS \<Longrightarrow>
          fst (snd (process_n_option conv arg o1)) = o1"
    by (rule n_handler_fail_keeps)
  show "fst (process_p_option conv arg o1) \<noteq> E_SUCCESS \<Longrightarrow>
          fst (snd (process_p_option conv arg o1)) = o1"
    by (rule p_handler_fail_keeps)
  show "\<exists>opts'. res_opts (process_options conv argv (Some opts) d) = Some opts'
            \<and> no_partial_option conv opts opts'"
  proof (cases "argv = None \<or> argv = Some []")
    case True
    then show ?thesis by (auto simp: process_options_def no_partial_refl)
  next
    case False
    then obtain av where av: "argv = Some av" "av \<noteq> []" by auto
    show ?thesis
      using loop_inv[of conv opts
          "\<lparr>st_argv = av, st_opts = opts, st_lib = d, st_out = []\<rparr>" E_FAILURE]
      by (simp add: av process_options_opts no_partial_refl)
  qed
qed

theorem record_holds_only_complete_options_witness:
  "fst (process_n_option str_to_int32 (Some ''80'') (options_zero\<lparr>n_flag := True, n_value := 4\<rparr>)) \<noteq> E_SUCCESS
   \<and> fst (process_p_option str_to_int32 (Some ''80'') (options_zero\<lparr>n_flag := True, n_value := 4\<rparr>)) \<noteq> E_SUCCESS
   \<and> fst (snd (process_n_option str_to_int32 (Some ''80'') (options_zero\<lparr>n_flag := True, n_value := 4\<rparr>))) = (options_zero\<lparr>n_flag := True, n_value := 4\<rparr>)
   \<and> fst (snd (process_p_option str_to_int32 (Some ''80'') (options_zero\<lparr>n_flag := True, n_value := 4\<rparr>))) = (options_zero\<lparr>n_flag := True, n_value := 4\<rparr>)
   \<and> (\<exists>opts'. res_opts (process_options str_to_int32 (Some [''netcalc'', ''-n'', ''4'', ''-p'', ''80''])
          (Some options_zero) (getopt_start PERMUTE)) = Some opts'
          \<and> no_partial_option str_to_int32 options_zero opts')"
proof -
  have n: "fst (process_n_option str_to_int32 (Some ''80'') (options_zero\<lparr>n_flag := True, n_value := 4\<rparr>)) \<noteq> E_SUCCESS"
    by code_simp
  have p: "fst (process_p_option str_to_int32 (Some ''80'') (options_zero\<lparr>n_flag := True, n_value := 4\<rparr>)) \<noteq> E_SUCCESS"
    by code_simp
  show ?thesis
    using record_holds_only_complete_options[of str_to_int32 "Some ''80''"
        "options_zero\<lparr>n_flag := True, n_value := 4\<rparr>" "Some [''netcalc'', ''-n'', ''4'', ''-p'', ''80'']" options_zero "getopt_start PERMUTE"] n p
    by simp
qed

end
